theory Spec2Isabelle
  imports Main "HOL-Library.Word" "HOL-Library.Sublist"
begin

section \<open>JavaScript strings\<close>

text \<open>
  A JavaScript string is a sequence of UTF-16 code units; \<open>length\<close>, \<open>slice\<close> and
  \<open>trim\<close> count code units. String literals of the source are written \<open>lit ''...''\<close>;
  the two non-ASCII characters the source uses are constants of their own.
\<close>

type_synonym jsstring = "16 word list"

definition lit :: "string \<Rightarrow> jsstring" where
  "lit s = map (\<lambda>c. of_nat (of_char c)) s"

definition ellipsis :: "16 word" where
  \<comment> \<open>U+2026, the character between the two halves of a redacted token\<close>
  "ellipsis = 0x2026"

definition bullet :: "16 word" where
  \<comment> \<open>U+2022, the separator in a queue row's name\<close>
  "bullet = 0x2022"

definition slice :: "'a list \<Rightarrow> int \<Rightarrow> int \<Rightarrow> 'a list" where
  \<comment> \<open>\<open>s.slice(b, e)\<close>: a negative index counts from the end, and both are clamped\<close>
  "slice s b e =
     (let n = int (length s);
          from = (if b < 0 then max (n + b) 0 else min b n);
          to = (if e < 0 then max (n + e) 0 else min e n)
      in take (nat (to - from)) (drop (nat from) s))"

definition slice_from :: "'a list \<Rightarrow> int \<Rightarrow> 'a list" where
  \<comment> \<open>\<open>s.slice(b)\<close>: the end defaults to the length\<close>
  "slice_from s b = slice s b (int (length s))"

definition is_ws :: "16 word \<Rightarrow> bool" where
  \<comment> \<open>the white space and line terminators that \<open>trim\<close> removes\<close>
  "is_ws c = (c \<in> {0x09, 0x0A, 0x0B, 0x0C, 0x0D, 0x20, 0xA0, 0x1680, 0x2028, 0x2029,
                    0x202F, 0x205F, 0x3000, 0xFEFF} \<or> (0x2000 \<le> c \<and> c \<le> 0x200A))"

definition trim :: "jsstring \<Rightarrow> jsstring" where
  "trim s = rev (dropWhile is_ws (rev (dropWhile is_ws s)))"

definition truthy :: "jsstring option \<Rightarrow> bool" where
  \<comment> \<open>a string value in a condition: \<open>undefined\<close>, \<open>null\<close> and \<open>\"\"\<close> are falsy\<close>
  "truthy v = (case v of None \<Rightarrow> False | Some s \<Rightarrow> s \<noteq> [])"

section \<open>Configuration\<close>

text \<open>The environment variables the source reads (\<open>process.env\<close>); \<open>None\<close> is unset.\<close>

record config =
  UPSTASH_REDIS_REST_URL :: "jsstring option"
  UPSTASH_REDIS_REST_TOKEN :: "jsstring option"
  NOTION_API_KEY :: "jsstring option"
  NOTION_EVENTS_QUEUE_DB_ID :: "jsstring option"
  NOTION_WEBHOOK_VERIFICATION_TOKEN :: "jsstring option"
  NOTION_WEBHOOK_SECRET :: "jsstring option"
  AQUEDUCT_ADMIN_SECRET :: "jsstring option"

definition getRedis :: "config \<Rightarrow> bool" where
  \<comment> \<open>whether a client is made: both the URL and the token are set and non-empty\<close>
  "getRedis cfg = (truthy (UPSTASH_REDIS_REST_URL cfg) \<and> truthy (UPSTASH_REDIS_REST_TOKEN cfg))"

section \<open>The verification token channel (\<open>src/lib/verificationToken.ts\<close>)\<close>

text \<open>
  The key-value service holds, for each key, a value and the instant (in seconds) at which
  it expires. A call of the channel happens at one instant \<open>now\<close>.
\<close>

type_synonym redis = "string \<Rightarrow> (jsstring \<times> nat) option"

definition redis_get :: "redis \<Rightarrow> nat \<Rightarrow> string \<Rightarrow> jsstring option" where
  "redis_get r now k =
     (case r k of None \<Rightarrow> None | Some (v, expires) \<Rightarrow> if now < expires then Some v else None)"

definition redis_set_ex :: "redis \<Rightarrow> nat \<Rightarrow> string \<Rightarrow> jsstring \<Rightarrow> nat \<Rightarrow> redis" where
  "redis_set_ex r now k v ex = r(k \<mapsto> (v, now + ex))"

definition redis_del :: "redis \<Rightarrow> string \<Rightarrow> redis" where
  "redis_del r k = r(k := None)"

definition KEY :: string where
  "KEY = ''aqueduct:notion:verification_token''"

definition USED_KEY :: string where
  "USED_KEY = ''aqueduct:notion:verification_token_used''"


definition consumeVerificationToken :: "config \<Rightarrow> nat \<Rightarrow> redis \<Rightarrow> jsstring option \<times> redis" where
  "consumeVerificationToken cfg now r =
     (if \<not> getRedis cfg then (None, r)
      else if truthy (redis_get r now USED_KEY) then (None, r)
      else let tok = redis_get r now KEY in
        if \<not> truthy tok then (None, r)
        else (tok, redis_del (redis_set_ex r now USED_KEY (lit ''1'') (10 * 60)) KEY))"


definition adminGET :: "config \<Rightarrow> jsstring option \<Rightarrow> nat \<Rightarrow> redis \<Rightarrow> (nat \<times> jsstring) \<times> redis" where
  \<comment> \<open>the admin route: the HTTP status and the body; on 200 the body is the token\<close>
  "adminGET cfg secret_header now r =
     (case AQUEDUCT_ADMIN_SECRET cfg of
        None \<Rightarrow> ((500, lit ''Missing AQUEDUCT_ADMIN_SECRET''), r)
      | Some expected \<Rightarrow>
          if expected = [] then ((500, lit ''Missing AQUEDUCT_ADMIN_SECRET''), r)
          else let provided = (case secret_header of None \<Rightarrow> [] | Some h \<Rightarrow> h) in
            if provided \<noteq> expected then ((401, lit ''Unauthorized''), r)
            else case consumeVerificationToken cfg now r of
                (tok, r') \<Rightarrow>
                  if \<not> truthy tok then ((404, lit ''No token available''), r')
                  else ((200, the tok), r'))"

section \<open>Signatures (\<open>src/lib/notion.ts\<close>)\<close>

text \<open>
  \<open>crypto.createHmac("sha256", secret).update(payload).digest()\<close> is the platform's
  library, not this repository: the digest function is a parameter, from the key and the
  message to the digest's bytes.
\<close>

type_synonym hmac = "jsstring \<Rightarrow> jsstring \<Rightarrow> 8 word list"

definition hexdigit :: "nat \<Rightarrow> 16 word" where
  "hexdigit d = (if d < 10 then of_nat (48 + d) else of_nat (87 + d))"

definition hex_encode :: "8 word list \<Rightarrow> jsstring" where
  \<comment> \<open>\<open>digest("hex")\<close>: two lower-case digits for each byte\<close>
  "hex_encode bs = concat (map (\<lambda>b. [hexdigit (unat b div 16), hexdigit (unat b mod 16)]) bs)"

definition hmacSha256Hex :: "hmac \<Rightarrow> jsstring \<Rightarrow> jsstring \<Rightarrow> jsstring" where
  "hmacSha256Hex h secret payload = hex_encode (h secret payload)"

definition unhex :: "16 word \<Rightarrow> nat option" where
  \<comment> \<open>the value of a hexadecimal digit, of either case\<close>
  "unhex c =
     (let n = unat c in
      if 48 \<le> n \<and> n \<le> 57 then Some (n - 48)
      else if 97 \<le> n \<and> n \<le> 102 then Some (n - 87)
      else if 65 \<le> n \<and> n \<le> 70 then Some (n - 55)
      else None)"

fun hex_decode :: "jsstring \<Rightarrow> 8 word list" where
  \<comment> \<open>\<open>Buffer.from(s, "hex")\<close>: pairs of digits, up to the first pair that is not two
      digits; a single digit left at the end is dropped\<close>
  "hex_decode (a # b # rest) =
     (case (unhex a, unhex b) of
        (Some x, Some y) \<Rightarrow> of_nat (16 * x + y) # hex_decode rest
      | _ \<Rightarrow> [])"
| "hex_decode _ = []"

definition timingSafeEqualHex :: "jsstring \<Rightarrow> jsstring \<Rightarrow> bool" where
  \<comment> \<open>\<open>crypto.timingSafeEqual\<close> compares two buffers of one length byte by byte\<close>
  "timingSafeEqualHex a b =
     (let ab = hex_decode a; bb = hex_decode b in
      if length ab \<noteq> length bb then False else ab = bb)"

section \<open>The queue store and the upstream API\<close>

text \<open>
  A row of the queue is a page: its identifier, its creation instant and its properties by
  name. The source orders pages by comparing the ISO-8601 renderings of \<open>created_time\<close>
  with \<open>localeCompare\<close>; these are ordered as the instants are, and the model keeps the
  instant. A rich text is the list of its fragments' plain texts.
\<close>

datatype prop_value =
    Title jsstring
  | Rich_text "jsstring list"
  | Select jsstring
  | Checkbox bool
  | Url jsstring
  | Date jsstring

record page =
  page_id :: jsstring
  created_time :: nat
  properties :: "(string \<times> prop_value) list"

datatype query_filter =
    Rich_text_equals string jsstring
  | Select_equals string jsstring

datatype api_request =
    Get_database jsstring
  | Query_data_source jsstring query_filter nat bool
  | Create_page jsstring "(string \<times> prop_value option) list"
  | Update_page jsstring "(string \<times> prop_value) list"

datatype api_result =
    Database "jsstring option"
  | Results "page list"
  | Page_done

datatype console_line =
    Console_log jsstring
  | Console_error jsstring jsstring

text \<open>
  The world a request handler or a worker run acts on: the rows of the queue in the order
  in which the store answers a query without a sort, the first data source the store reports
  for the queue database, the identifier and creation instant the store gives to the page
  created when it holds \<open>n\<close> rows, the key-value service, the number of upstream calls made
  so far with the calls themselves, and the process's console.
\<close>

record world =
  rows :: "page list"
  data_source_id :: "jsstring option"
  mint :: "nat \<Rightarrow> jsstring \<times> nat"
  kvs :: redis
  tick :: nat
  attempted :: "api_request list"
  console :: "console_line list"

text \<open>
  An upstream call either is answered or fails (a network error, a response that is not
  2xx): \<open>faults n\<close> is the rendering \<open>String(err)\<close> of what the \<open>n\<close>-th call throws, or
  \<open>None\<close> when it is answered. A call is taken from the moment its wait for the rate
  limiter has ended; the wait itself is \<open>throttleOrWait\<close> below.
\<close>

type_synonym faults = "nat \<Rightarrow> jsstring option"

fun set_prop :: "string \<Rightarrow> prop_value \<Rightarrow> (string \<times> prop_value) list \<Rightarrow> (string \<times> prop_value) list" where
  "set_prop k v [] = [(k, v)]"
| "set_prop k v ((k', v') # ps) =
     (if k = k' then (k, v) # ps else (k', v') # set_prop k v ps)"

definition patch_props :: "(string \<times> prop_value) list \<Rightarrow> (string \<times> prop_value) list \<Rightarrow> (string \<times> prop_value) list" where
  \<comment> \<open>a patch replaces the value of each property it names and leaves the others\<close>
  "patch_props new old = fold (\<lambda>(k, v). set_prop k v) new old"

definition defined_props :: "(string \<times> prop_value option) list \<Rightarrow> (string \<times> prop_value) list" where
  "defined_props ps = concat (map (\<lambda>(k, v). case v of None \<Rightarrow> [] | Some x \<Rightarrow> [(k, x)]) ps)"

fun matches :: "query_filter \<Rightarrow> page \<Rightarrow> bool" where
  "matches (Rich_text_equals name s) p =
     (case map_of (properties p) name of Some (Rich_text frs) \<Rightarrow> concat frs = s | _ \<Rightarrow> False)"
| "matches (Select_equals name s) p =
     (case map_of (properties p) name of Some (Select n) \<Rightarrow> n = s | _ \<Rightarrow> False)"

fun serve :: "api_request \<Rightarrow> world \<Rightarrow> api_result \<times> world" where
  \<comment> \<open>what the store does with a call it answers\<close>
  "serve (Get_database db) w = (Database (data_source_id w), w)"
| "serve (Query_data_source ds flt page_size by_created) w =
     (let found = filter (matches flt) (rows w);
          ordered = (if by_created then sort_key created_time found else found)
      in (Results (take page_size ordered), w))"
| "serve (Create_page db ps) w =
     (let (pid, t) = mint w (length (rows w))
      in (Page_done,
          w\<lparr>rows := rows w @ [\<lparr>page_id = pid, created_time = t, properties = defined_props ps\<rparr>]\<rparr>))"
| "serve (Update_page pid ps) w =
     (Page_done,
      w\<lparr>rows := map (\<lambda>p. if page_id p = pid
                          then p\<lparr>properties := patch_props ps (properties p)\<rparr> else p) (rows w)\<rparr>)"

definition upstream :: "faults \<Rightarrow> api_request \<Rightarrow> world \<Rightarrow> (jsstring + api_result) \<times> world" where
  "upstream f rq w =
     (let w1 = w\<lparr>tick := Suc (tick w), attempted := attempted w @ [rq]\<rparr> in
      case f (tick w) of
        Some err \<Rightarrow> (Inl err, w1)
      | None \<Rightarrow> (case serve rq w1 of (res, w2) \<Rightarrow> (Inr res, w2)))"

definition await :: "(world \<Rightarrow> (jsstring + 'a) \<times> world) \<Rightarrow> ('a \<Rightarrow> world \<Rightarrow> (jsstring + 'b) \<times> world)
    \<Rightarrow> world \<Rightarrow> (jsstring + 'b) \<times> world" where
  \<comment> \<open>\<open>const x = await m; k(x)\<close>: what \<open>m\<close> throws is thrown on\<close>
  "await m k w = (case m w of (Inl err, w') \<Rightarrow> (Inl err, w') | (Inr x, w') \<Rightarrow> k x w')"

definition Error_string :: "jsstring \<Rightarrow> jsstring" where
  \<comment> \<open>\<open>String(new Error(msg))\<close>\<close>
  "Error_string msg = lit ''Error: '' @ msg"

section \<open>The webhook receiver (the route's \<open>POST\<close> handler)\<close>

text \<open>
  The library's \<open>notionFetch\<close> throws at once when the API key is missing; otherwise it
  waits for the rate limiter and makes the call.
\<close>

definition notionFetch :: "config \<Rightarrow> faults \<Rightarrow> api_request \<Rightarrow> world \<Rightarrow> (jsstring + api_result) \<times> world" where
  "notionFetch cfg f rq w =
     (if \<not> truthy (NOTION_API_KEY cfg) then (Inl (Error_string (lit ''Missing NOTION_API_KEY'')), w)
      else upstream f rq w)"

definition getDatabaseDataSourceId :: "config \<Rightarrow> faults \<Rightarrow> jsstring \<Rightarrow> world \<Rightarrow> (jsstring + jsstring) \<times> world" where
  "getDatabaseDataSourceId cfg f databaseId =
     await (notionFetch cfg f (Get_database databaseId))
       (\<lambda>db w. case db of
           Database (Some ds) \<Rightarrow>
             if ds = [] then (Inl (Error_string (lit ''Database has no data_sources[0].id'')), w)
             else (Inr ds, w)
         | _ \<Rightarrow> (Inl (Error_string (lit ''Database has no data_sources[0].id'')), w))"

definition eventExists :: "config \<Rightarrow> faults \<Rightarrow> jsstring \<Rightarrow> jsstring \<Rightarrow> world \<Rightarrow> (jsstring + bool) \<times> world" where
  "eventExists cfg f dataSourceId eventId =
     await (notionFetch cfg f
              (Query_data_source dataSourceId (Rich_text_equals ''Event ID'' eventId) 1 False))
       (\<lambda>q w. (Inr (case q of Results ps \<Rightarrow> 0 < length ps | _ \<Rightarrow> False), w))"

record write_params =
  databaseId :: jsstring
  event_type :: jsstring
  eventId :: jsstring
  objectType :: "jsstring option"
  objectId :: "jsstring option"
  sourceUrl :: "jsstring option"
  payloadJson :: jsstring

definition page_properties :: "write_params \<Rightarrow> jsstring \<Rightarrow> (string \<times> prop_value option) list" where
  \<comment> \<open>the \<open>properties\<close> object as it is first built; \<open>None\<close> is a key whose value is
      \<open>undefined\<close>\<close>
  "page_properties ps now =
     (let name = trim (event_type ps @ lit '' '' @ [bullet] @ lit '' ''
                        @ (case objectType ps of None \<Rightarrow> lit ''object'' | Some t \<Rightarrow> t) @ lit '':''
                        @ (case objectId ps of None \<Rightarrow> [] | Some i \<Rightarrow> i))
      in [(''Name'', Some (Title (slice name 0 200))),
          (''Event ID'', Some (Rich_text [eventId ps])),
          (''Type'', Some (Select (event_type ps))),
          (''Notion object type'',
             if truthy (objectType ps) then Some (Select (the (objectType ps))) else None),
          (''Notion object id'',
             if truthy (objectId ps) then Some (Rich_text [the (objectId ps)]) else None),
          (''Source URL'', if truthy (sourceUrl ps) then Some (Url (the (sourceUrl ps))) else None),
          (''Status'', Some (Select (lit ''New''))),
          (''Needs human review'', Some (Checkbox False)),
          (''Payload (json)'', Some (Rich_text [slice (payloadJson ps) 0 1900])),
          (''Created'', Some (Date now)),
          (''Scipio log'',
             Some (Rich_text [lit ''Aqueduct: queued event '' @ eventId ps @ lit '' (''
                                @ event_type ps @ lit '') at '' @ now]))])"

definition strip_undefined :: "(string \<times> prop_value option) list \<Rightarrow> (string \<times> prop_value option) list" where
  \<comment> \<open>the loop that deletes every key whose value is \<open>undefined\<close>\<close>
  "strip_undefined ps = filter (\<lambda>(k, v). v \<noteq> None) ps"

definition writeEventToQueue :: "config \<Rightarrow> faults \<Rightarrow> jsstring \<Rightarrow> write_params \<Rightarrow> world \<Rightarrow> (jsstring + unit) \<times> world" where
  "writeEventToQueue cfg f now ps =
     await (notionFetch cfg f (Create_page (databaseId ps) (strip_undefined (page_properties ps now))))
       (\<lambda>_ w. (Inr (), w))"

text \<open>
  The request as the handler sees it: the raw body, the \<open>x-notion-signature\<close> header, and
  what \<open>JSON.parse(rawBody)\<close> gives (\<open>None\<close> when it throws). The parsed body has the shape
  the handler declares for it, with the handshake's \<open>verification_token\<close>;
  \<open>json_text\<close> is \<open>JSON.stringify\<close> of it.
\<close>

record entity =
  entity_type :: "jsstring option"
  entity_id :: "jsstring option"

record envelope =
  verification_token :: "jsstring option"
  evt_id :: "jsstring option"
  evt_type :: "jsstring option"
  evt_entity :: "entity option"
  json_text :: jsstring

record request =
  rawBody :: jsstring
  signature_header :: "jsstring option"
  body_json :: "envelope option"

datatype response =
    Json_verification_token jsstring
  | Json_ok
  | Json_ok_deduped
  | Plain nat jsstring

definition redact :: "jsstring \<Rightarrow> jsstring" where
  "redact tok = (if length tok \<le> 12 then tok else slice tok 0 8 @ [ellipsis] @ slice_from tok (- 4))"

definition WEBHOOK_VERIFICATION_TOKEN :: "config \<Rightarrow> jsstring option" where
  "WEBHOOK_VERIFICATION_TOKEN cfg =
     (case NOTION_WEBHOOK_VERIFICATION_TOKEN cfg of Some t \<Rightarrow> Some t | None \<Rightarrow> NOTION_WEBHOOK_SECRET cfg)"

definition handshake_token :: "request \<Rightarrow> jsstring option" where
  \<comment> \<open>the token when the body parses and \<open>parsed?.verification_token\<close> is truthy\<close>
  "handshake_token req =
     (case body_json req of
        None \<Rightarrow> None
      | Some parsed \<Rightarrow> if truthy (verification_token parsed) then verification_token parsed else None)"

definition signature_of :: "request \<Rightarrow> jsstring" where
  \<comment> \<open>\<open>req.headers.get("x-notion-signature") ?? ""\<close>\<close>
  "signature_of req = (case signature_header req of None \<Rightarrow> [] | Some s \<Rightarrow> s)"

definition write_args :: "jsstring \<Rightarrow> envelope \<Rightarrow> write_params" where
  \<comment> \<open>the argument the handler passes to \<open>writeEventToQueue\<close>\<close>
  "write_args db evt =
     \<lparr>databaseId = db,
      event_type = (case evt_type evt of None \<Rightarrow> lit ''Other'' | Some t \<Rightarrow> t),
      eventId = the (evt_id evt),
      objectType = (case evt_entity evt of None \<Rightarrow> None | Some e \<Rightarrow> entity_type e),
      objectId = (case evt_entity evt of None \<Rightarrow> None | Some e \<Rightarrow> entity_id e),
      sourceUrl = None,
      payloadJson = json_text evt\<rparr>"

definition POST :: "hmac \<Rightarrow> config \<Rightarrow> faults \<Rightarrow> jsstring \<Rightarrow> request \<Rightarrow> world \<Rightarrow> (jsstring + response) \<times> world" where
  "POST h cfg f now req w =
     (let signature = signature_of req in
      case handshake_token req of
        Some tok \<Rightarrow>
          (Inr (Json_verification_token tok),
           w\<lparr>console := console w
                @ [Console_log (lit ''[notion] verification_token received: '' @ redact tok)]\<rparr>)
      | None \<Rightarrow>
          if \<not> truthy (WEBHOOK_VERIFICATION_TOKEN cfg)
          then (Inr (Plain 500 (lit ''Missing NOTION_WEBHOOK_VERIFICATION_TOKEN'')), w)
          else
            let computed = hmacSha256Hex h (the (WEBHOOK_VERIFICATION_TOKEN cfg)) (rawBody req) in
            if signature = [] \<or> \<not> timingSafeEqualHex signature computed
            then (Inr (Plain 401 (lit ''Invalid signature'')), w)
            else case body_json req of
              None \<Rightarrow> (Inr (Plain 400 (lit ''Invalid JSON'')), w)
            | Some evt \<Rightarrow>
                if \<not> truthy (NOTION_EVENTS_QUEUE_DB_ID cfg)
                then (Inr (Plain 500 (lit ''Missing NOTION_EVENTS_QUEUE_DB_ID'')), w)
                else
                  let db = the (NOTION_EVENTS_QUEUE_DB_ID cfg) in
                  if \<not> truthy (evt_id evt)
                  then (Inr (Plain 400 (lit ''Missing event id'')), w)
                  else
                    await (getDatabaseDataSourceId cfg f db)
                      (\<lambda>dsId. await (eventExists cfg f dsId (the (evt_id evt)))
                        (\<lambda>exists.
                           if exists then (\<lambda>w'. (Inr Json_ok_deduped, w'))
                           else await (writeEventToQueue cfg f now (write_args db evt))
                                 (\<lambda>_ w'. (Inr Json_ok, w')))) w)"

section \<open>The rate limiter (\<open>src/lib/ratelimit.ts\<close>)\<close>

text \<open>
  The counter service is the platform's library: \<open>backend name n\<close> is its answer to the
  \<open>n\<close>-th \<open>limit\<close> call on the limiter of that name. A limiter is the sequence of the
  answers its \<open>limit\<close> gives; \<open>clock n\<close> is what \<open>Date.now()\<close> reads after the \<open>n\<close>-th
  answer. Times are in milliseconds.
\<close>

datatype limiter_name = Notion | External

record rl_response =
  success :: bool
  reset :: int
  rl_remaining :: int

record limit_result =
  ok :: bool
  resetMs :: "int option"
  remaining :: "int option"

definition getLimiter :: "config \<Rightarrow> (limiter_name \<Rightarrow> nat \<Rightarrow> rl_response) \<Rightarrow> limiter_name \<Rightarrow> nat \<Rightarrow> limit_result" where
  "getLimiter cfg backend name =
     (if \<not> getRedis cfg then (\<lambda>_. \<lparr>ok = True, resetMs = None, remaining = None\<rparr>)
      else (\<lambda>n. let res = backend name n
                in \<lparr>ok = success res, resetMs = Some (reset res), remaining = Some (rl_remaining res)\<rparr>))"

definition waitMs :: "limit_result \<Rightarrow> int \<Rightarrow> int" where
  "waitMs res now = max 250 ((case resetMs res of None \<Rightarrow> now + 1000 | Some r \<Rightarrow> r) - now)"

partial_function (option) throttleOrWait :: "(nat \<Rightarrow> limit_result) \<Rightarrow> (nat \<Rightarrow> int) \<Rightarrow> nat \<Rightarrow> int list \<Rightarrow> int list option" where
  \<comment> \<open>the loop from its \<open>n\<close>-th round on; the result is the list of the sleeps made\<close>
  "throttleOrWait limiter clock n slept =
     (if ok (limiter n) then Some slept
      else throttleOrWait limiter clock (Suc n) (slept @ [waitMs (limiter n) (clock n)]))"

section \<open>The queue worker (\<open>scripts/events-queue-worker.mjs\<close>)\<close>

text \<open>
  The script stops when it starts without the API key or the queue database identifier; the
  model is of a run that has both. Its \<open>throttle\<close> is the loop of \<open>throttleOrWait\<close>
  above, and its \<open>notionFetch\<close> is the call that follows the wait. \<open>processEvent\<close> is
  written in two parts, its first patch and what follows it.
\<close>

definition worker_notionFetch :: "faults \<Rightarrow> api_request \<Rightarrow> world \<Rightarrow> (jsstring + api_result) \<times> world" where
  "worker_notionFetch f rq w = upstream f rq w"

definition getDataSourceId :: "faults \<Rightarrow> jsstring \<Rightarrow> world \<Rightarrow> (jsstring + jsstring) \<times> world" where
  "getDataSourceId f dbId =
     await (worker_notionFetch f (Get_database dbId))
       (\<lambda>db w. case db of
           Database (Some ds) \<Rightarrow>
             if ds = [] then (Inl (Error_string (lit ''Database has no data_sources[0].id'')), w)
             else (Inr ds, w)
         | _ \<Rightarrow> (Inl (Error_string (lit ''Database has no data_sources[0].id'')), w))"

definition queryNewEvents :: "faults \<Rightarrow> jsstring \<Rightarrow> nat \<Rightarrow> world \<Rightarrow> (jsstring + api_result) \<times> world" where
  "queryNewEvents f dataSourceId pageSize =
     worker_notionFetch f
       (Query_data_source dataSourceId (Select_equals ''Status'' (lit ''New'')) pageSize True)"

definition findByEventId :: "faults \<Rightarrow> jsstring \<Rightarrow> jsstring \<Rightarrow> world \<Rightarrow> (jsstring + api_result) \<times> world" where
  "findByEventId f dataSourceId evId =
     worker_notionFetch f
       (Query_data_source dataSourceId (Rich_text_equals ''Event ID'' evId) 10 False)"

definition updatePage :: "faults \<Rightarrow> jsstring \<Rightarrow> (string \<times> prop_value) list \<Rightarrow> world \<Rightarrow> (jsstring + api_result) \<times> world" where
  "updatePage f pageId ps = worker_notionFetch f (Update_page pageId ps)"

definition getRichText :: "page \<Rightarrow> string \<Rightarrow> jsstring" where
  "getRichText pg propName =
     (case map_of (properties pg) propName of
        Some (Rich_text rt) \<Rightarrow> if rt = [] then [] else trim (concat rt)
      | _ \<Rightarrow> [])"

definition deduped_patch :: "jsstring \<Rightarrow> jsstring \<Rightarrow> (string \<times> prop_value) list" where
  "deduped_patch keeper evId =
     [(''Status'', Select (lit ''Deduped'')),
      (''Needs human review'', Checkbox False),
      (''Scipio log'',
         Rich_text [lit ''Worker: deduped (keeper='' @ keeper @ lit '') for eventId='' @ evId])]"

definition review_patch :: "jsstring \<Rightarrow> (string \<times> prop_value) list" where
  "review_patch typ =
     [(''Status'', Select (lit ''Needs human review'')),
      (''Needs human review'', Checkbox True),
      (''Scipio log'',
         Rich_text [lit ''Worker: no handler for type='' @ typ @ lit ''. Marked Needs human review.''])]"

definition error_patch :: "jsstring \<Rightarrow> (string \<times> prop_value) list" where
  "error_patch err =
     [(''Status'', Select (lit ''Error'')),
      (''Needs human review'', Checkbox True),
      (''Scipio log'', Rich_text [lit ''Worker: error: '' @ slice err 0 500])]"

definition row_type :: "page \<Rightarrow> jsstring" where
  \<comment> \<open>\<open>page?.properties?.Type?.select?.name ?? "Other"\<close>\<close>
  "row_type pg = (case map_of (properties pg) ''Type'' of Some (Select n) \<Rightarrow> n | _ \<Rightarrow> lit ''Other'')"

definition dedupe_and_dispatch :: "faults \<Rightarrow> page \<Rightarrow> jsstring \<Rightarrow> world \<Rightarrow> (jsstring + unit) \<times> world" where
  \<comment> \<open>\<open>processEvent\<close> after its first patch: the dedup check, then the dispatch\<close>
  "dedupe_and_dispatch f pg dataSourceId =
     (let pageId = page_id pg;
          evId = getRichText pg ''Event ID'';
          typ = row_type pg;
          dispatch = await (updatePage f pageId (review_patch typ)) (\<lambda>_ w. (Inr (), w))
      in if evId \<noteq> [] then
           await (findByEventId f dataSourceId evId)
             (\<lambda>q. let results = (case q of Results ps \<Rightarrow> ps | _ \<Rightarrow> []) in
                if 1 < length results then
                  let keeper = page_id (hd (sort_key created_time results)) in
                  if keeper \<noteq> [] \<and> keeper \<noteq> pageId
                  then await (updatePage f pageId (deduped_patch keeper evId))
                         (\<lambda>_ w. (Inr (), w))
                  else dispatch
                else dispatch)
         else dispatch)"

definition in_progress_patch :: "(string \<times> prop_value) list" where
  "in_progress_patch = [(''Status'', Select (lit ''In Progress''))]"

definition processEvent :: "faults \<Rightarrow> page \<Rightarrow> jsstring \<Rightarrow> world \<Rightarrow> (jsstring + unit) \<times> world" where
  "processEvent f pg dataSourceId =
     await (updatePage f (page_id pg) in_progress_patch)
       (\<lambda>_. dedupe_and_dispatch f pg dataSourceId)"

definition process_row :: "faults \<Rightarrow> page \<Rightarrow> jsstring \<Rightarrow> world \<Rightarrow> world" where
  \<comment> \<open>the body of the loop of \<open>main\<close>: the \<open>try\<close>, its \<open>catch\<close> and the \<open>try\<close> inside it\<close>
  "process_row f pg dsId w =
     (case processEvent f pg dsId w of
        (Inr _, w1) \<Rightarrow> w1\<lparr>console := console w1 @ [Console_log (lit ''Processed '' @ page_id pg)]\<rparr>
      | (Inl err, w1) \<Rightarrow>
          let w2 = w1\<lparr>console := console w1
                      @ [Console_error (lit ''Error processing '' @ page_id pg @ lit '':'') err]\<rparr>
          in snd (updatePage f (page_id pg) (error_patch err) w2))"

fun main_loop :: "faults \<Rightarrow> page list \<Rightarrow> jsstring \<Rightarrow> world \<Rightarrow> world" where
  "main_loop f [] dsId w = w"
| "main_loop f (pg # rest) dsId w = main_loop f rest dsId (process_row f pg dsId w)"

fun decimal :: "nat \<Rightarrow> jsstring" where
  "decimal n = (if n < 10 then [of_nat (48 + n)] else decimal (n div 10) @ [of_nat (48 + n mod 10)])"

definition main :: "faults \<Rightarrow> jsstring \<Rightarrow> world \<Rightarrow> (jsstring + unit) \<times> world" where
  "main f dbId =
     await (getDataSourceId f dbId)
       (\<lambda>dsId. await (queryNewEvents f dsId 25)
          (\<lambda>q w. let results = (case q of Results ps \<Rightarrow> ps | _ \<Rightarrow> []);
                     w1 = w\<lparr>console := console w
                              @ [Console_log (lit ''Found '' @ decimal (length results)
                                                @ lit '' new events'')]\<rparr>
                 in (Inr (), main_loop f results dsId w1)))"

definition prop_of :: "world \<Rightarrow> jsstring \<Rightarrow> string \<Rightarrow> prop_value option" where
  \<comment> \<open>the value of a property of the row with the given identifier, as the store holds it\<close>
  "prop_of w pid name =
     (case find (\<lambda>p. page_id p = pid) (rows w) of None \<Rightarrow> None | Some p \<Rightarrow> map_of (properties p) name)"

section \<open>Notions used in the statements\<close>

definition well_signed :: "hmac \<Rightarrow> config \<Rightarrow> request \<Rightarrow> bool" where
  \<comment> \<open>a signing secret is configured, and the signature header is not empty and decodes to
      the digest of the raw body\<close>
  "well_signed h cfg req =
     (truthy (WEBHOOK_VERIFICATION_TOKEN cfg)
      \<and> signature_of req \<noteq> []
      \<and> hex_decode (signature_of req) = h (the (WEBHOOK_VERIFICATION_TOKEN cfg)) (rawBody req))"

definition created_row :: "world \<Rightarrow> write_params \<Rightarrow> jsstring \<Rightarrow> page" where
  \<comment> \<open>the row the store makes of the create call of \<open>writeEventToQueue\<close>\<close>
  "created_row w ps now =
     \<lparr>page_id = fst (mint w (length (rows w))), created_time = snd (mint w (length (rows w))),
      properties = defined_props (strip_undefined (page_properties ps now))\<rparr>"

definition live :: "jsstring \<Rightarrow> page \<Rightarrow> bool" where
  \<comment> \<open>a row of the event \<open>e\<close> whose status is not \<open>Deduped\<close>\<close>
  "live e p = (matches (Rich_text_equals ''Event ID'' e) p
               \<and> map_of (properties p) ''Status'' \<noteq> Some (Select (lit ''Deduped'')))"

definition patch_row :: "jsstring \<Rightarrow> (string \<times> prop_value) list \<Rightarrow> page \<Rightarrow> page" where
  \<comment> \<open>what an answered patch of the page \<open>pid\<close> does to a row of the store\<close>
  "patch_row pid ps p = (if page_id p = pid then p\<lparr>properties := patch_props ps (properties p)\<rparr> else p)"

definition preserves :: "(world \<Rightarrow> bool) \<Rightarrow> (world \<Rightarrow> 'a \<times> world) \<Rightarrow> bool" where
  \<comment> \<open>a step keeps a property of the world, whatever it returns or throws\<close>
  "preserves I m = (\<forall>w. I w \<longrightarrow> I (snd (m w)))"

definition dups :: "world \<Rightarrow> jsstring \<Rightarrow> page list" where
  \<comment> \<open>the rows of the store whose event identifier is \<open>e\<close>, in the store's order\<close>
  "dups w e = filter (matches (Rich_text_equals ''Event ID'' e)) (rows w)"

definition earliest :: "page \<Rightarrow> page list \<Rightarrow> bool" where
  \<comment> \<open>the keeper: a row of the list that none of the list was created before\<close>
  "earliest k D = (k \<in> set D \<and> (\<forall>p\<in>set D. created_time k \<le> created_time p))"

definition core :: "page \<Rightarrow> jsstring \<times> nat \<times> prop_value option" where
  \<comment> \<open>what the worker's patches never change in a row\<close>
  "core p = (page_id p, created_time p, map_of (properties p) ''Event ID'')"

definition statuses :: "world \<Rightarrow> prop_value option list" where
  \<comment> \<open>the status of every row, in the store's order\<close>
  "statuses w = map (\<lambda>p. map_of (properties p) ''Status'') (rows w)"

definition final_patch :: "jsstring \<Rightarrow> jsstring \<Rightarrow> page \<Rightarrow> (string \<times> prop_value) list" where
  \<comment> \<open>the last patch of \<open>processEvent\<close> for a row, when the keeper of its event is \<open>kid\<close>\<close>
  "final_patch kid e pg = (if kid = page_id pg then review_patch (row_type pg) else deduped_patch kid e)"

definition settled :: "world \<Rightarrow> jsstring \<Rightarrow> jsstring \<Rightarrow> page \<Rightarrow> bool" where
  \<comment> \<open>the row of \<open>pg\<close> is as the dedup pass leaves it: the keeper for review, the others deduped\<close>
  "settled w kid e pg =
     (if kid = page_id pg
      then prop_of w (page_id pg) ''Status'' = Some (Select (lit ''Needs human review''))
         \<and> prop_of w (page_id pg) ''Needs human review'' = Some (Checkbox True)
      else prop_of w (page_id pg) ''Status'' = Some (Select (lit ''Deduped''))
         \<and> prop_of w (page_id pg) ''Needs human review'' = Some (Checkbox False)
         \<and> prop_of w (page_id pg) ''Scipio log''
             = Some (Rich_text [lit ''Worker: deduped (keeper='' @ kid @ lit '') for eventId='' @ e]))"

section \<open>Concrete inputs\<close>

text \<open>
  The end-to-end scenario: the body \<open>{"id":"evt_1","type":"page.updated",...}\<close> signed with
  the secret \<open>whsec_test\<close>. \<open>scenario_hmac\<close> is HMAC-SHA256 at that secret and body (the
  digest \<open>a69579f8...2286d2fc\<close>); at other inputs it is 32 zero bytes and stands for nothing.
\<close>

definition no_faults :: faults where
  "no_faults = (\<lambda>_. None)"

definition scenario_body :: jsstring where
  "scenario_body = lit ''{\"id\":\"evt_1\",\"type\":\"page.updated\",\"entity\":{\"type\":\"page\",\"id\":\"pg_1\"}}''"

definition scenario_hmac :: hmac where
  "scenario_hmac secret payload =
     (if secret = lit ''whsec_test'' \<and> payload = scenario_body
      then [0xa6, 0x95, 0x79, 0xf8, 0x8e, 0xcb, 0x1f, 0xc2, 0xa9, 0x1d, 0xf4, 0x28, 0x1f, 0x5d, 0x7f, 0x10,
            0xf7, 0x54, 0xd2, 0xf3, 0x74, 0x51, 0x47, 0x06, 0x9b, 0x06, 0x4f, 0x45, 0x22, 0x86, 0xd2, 0xfc]
      else replicate 32 0)"

definition cfg_full :: config where
  "cfg_full = \<lparr>UPSTASH_REDIS_REST_URL = Some (lit ''https://kv.example''),
               UPSTASH_REDIS_REST_TOKEN = Some (lit ''kv-token''),
               NOTION_API_KEY = Some (lit ''api-key''),
               NOTION_EVENTS_QUEUE_DB_ID = Some (lit ''db_1''),
               NOTION_WEBHOOK_VERIFICATION_TOKEN = Some (lit ''whsec_test''),
               NOTION_WEBHOOK_SECRET = None,
               AQUEDUCT_ADMIN_SECRET = Some (lit ''admin'')\<rparr>"

definition cfg_no_redis :: config where
  "cfg_no_redis = cfg_full\<lparr>UPSTASH_REDIS_REST_URL := None, UPSTASH_REDIS_REST_TOKEN := None\<rparr>"

definition empty_world :: world where
  "empty_world = \<lparr>rows = [], data_source_id = Some (lit ''ds_1''),
                  mint = (\<lambda>n. (lit ''page-'' @ decimal n, 1000 + n)),
                  kvs = Map.empty, tick = 0, attempted = [], console = []\<rparr>"

definition scenario_request :: request where
  "scenario_request =
     \<lparr>rawBody = scenario_body,
      signature_header = Some (lit ''a69579f88ecb1fc2a91df4281f5d7f10f754d2f3745147069b064f452286d2fc''),
      body_json = Some \<lparr>verification_token = None, evt_id = Some (lit ''evt_1''),
                        evt_type = Some (lit ''page.updated''),
                        evt_entity = Some \<lparr>entity_type = Some (lit ''page''), entity_id = Some (lit ''pg_1'')\<rparr>,
                        json_text = scenario_body\<rparr>\<rparr>"

definition handshake_request :: request where
  "handshake_request =
     \<lparr>rawBody = lit ''{\"verification_token\":\"secret_tok_0123456789\"}'',
      signature_header = None,
      body_json = Some \<lparr>verification_token = Some (lit ''secret_tok_0123456789''), evt_id = None,
                        evt_type = None, evt_entity = None,
                        json_text = lit ''{\"verification_token\":\"secret_tok_0123456789\"}''\<rparr>\<rparr>"

definition short_handshake_request :: request where
  "short_handshake_request =
     \<lparr>rawBody = lit ''{\"verification_token\":\"abc123def456\"}'',
      signature_header = None,
      body_json = Some \<lparr>verification_token = Some (lit ''abc123def456''), evt_id = None,
                        evt_type = None, evt_entity = None,
                        json_text = lit ''{\"verification_token\":\"abc123def456\"}''\<rparr>\<rparr>"

definition denies_twice :: "limiter_name \<Rightarrow> nat \<Rightarrow> rl_response" where
  "denies_twice name n =
     (if n = 0 then \<lparr>success = False, reset = 1700, rl_remaining = 0\<rparr>
      else if n = 1 then \<lparr>success = False, reset = 1900, rl_remaining = 0\<rparr>
      else \<lparr>success = True, reset = 2900, rl_remaining = 2\<rparr>)"

definition always_denies :: "limiter_name \<Rightarrow> nat \<Rightarrow> rl_response" where
  "always_denies name n = \<lparr>success = False, reset = 1000 * int n, rl_remaining = 0\<rparr>"

definition sample_clock :: "nat \<Rightarrow> int" where
  "sample_clock n = 1000 + 800 * int n"

definition uppercase_request :: request where
  "uppercase_request = scenario_request
     \<lparr>signature_header := Some (lit ''A69579F88ECB1FC2A91DF4281F5D7F10F754D2F3745147069B064F452286D2FC'')\<rparr>"

definition flipped_request :: request where
  "flipped_request = scenario_request
     \<lparr>signature_header := Some (lit ''b69579f88ecb1fc2a91df4281f5d7f10f754d2f3745147069b064f452286d2fc'')\<rparr>"

definition bare_params :: write_params where
  "bare_params = \<lparr>databaseId = lit ''db_1'', event_type = lit ''Other'', eventId = lit ''evt_2'',
                  objectType = None, objectId = Some [], sourceUrl = None,
                  payloadJson = lit ''{\"id\":\"evt_2\"}''\<rparr>"

definition sample_row :: "string \<Rightarrow> nat \<Rightarrow> string \<Rightarrow> page" where
  \<comment> \<open>a queued row as the receiver leaves it, with the properties the worker reads and writes\<close>
  "sample_row pid t e =
     \<lparr>page_id = lit pid, created_time = t,
      properties = [(''Event ID'', Rich_text [lit e]),
                    (''Type'', Select (lit ''page.updated'')),
                    (''Status'', Select (lit ''New'')),
                    (''Needs human review'', Checkbox False),
                    (''Scipio log'', Rich_text [lit ''Aqueduct: queued''])]\<rparr>"

definition fails_at :: "nat \<Rightarrow> nat \<Rightarrow> faults" where
  \<comment> \<open>the calls numbered \<open>m\<close> and \<open>n\<close> get the answer 502, the others are answered\<close>
  "fails_at m n = (\<lambda>i. if i = m \<or> i = n then Some (lit ''Error: Notion API error 502: '') else None)"

definition five_rows :: "page list" where
  "five_rows = [sample_row ''page-1'' 1001 ''evt_a'', sample_row ''page-2'' 1002 ''evt_b'',
                sample_row ''page-3'' 1003 ''evt_c'', sample_row ''page-4'' 1004 ''evt_d'',
                sample_row ''page-5'' 1005 ''evt_e'']"

definition five_row_world :: world where
  "five_row_world = empty_world\<lparr>rows := five_rows\<rparr>"

definition three_dups :: world where
  \<comment> \<open>three rows of one event; the store answers the newest first\<close>
  "three_dups = empty_world\<lparr>rows := [sample_row ''page-c'' 1003 ''evt_1'', sample_row ''page-b'' 1002 ''evt_1'',
                                       sample_row ''page-a'' 1001 ''evt_1'']\<rparr>"

definition eleven_dups :: world where
  \<comment> \<open>eleven rows of one event; the store answers the newest first, so the oldest is last\<close>
  "eleven_dups = empty_world\<lparr>rows :=
     [sample_row ''page-11'' 1011 ''evt_1'', sample_row ''page-10'' 1010 ''evt_1'',
      sample_row ''page-9'' 1009 ''evt_1'', sample_row ''page-8'' 1008 ''evt_1'',
      sample_row ''page-7'' 1007 ''evt_1'', sample_row ''page-6'' 1006 ''evt_1'',
      sample_row ''page-5'' 1005 ''evt_1'', sample_row ''page-4'' 1004 ''evt_1'',
      sample_row ''page-3'' 1003 ''evt_1'', sample_row ''page-2'' 1002 ''evt_1'',
      sample_row ''page-1'' 1001 ''evt_1'']\<rparr>"

section \<open>Facts about strings\<close>

lemma lit_inj: "lit a = lit b \<longleftrightarrow> a = b"
proof -
  have u: "unat (of_nat (of_char c) :: 16 word) = of_char c" for c :: char
  proof -
    have "(of_char c :: nat) < 256"
      by (cases c) (simp add: of_char_def)
    then have "(of_char c :: nat) < 65536" by linarith
    then have "(of_char c :: nat) mod 65536 = of_char c" by (rule mod_less)
    then show ?thesis by (simp add: unat_of_nat)
  qed
  have "inj (\<lambda>c::char. (of_nat (of_char c) :: 16 word))"
  proof (rule injI)
    fix x y :: char
    assume "(of_nat (of_char x) :: 16 word) = of_nat (of_char y)"
    then have "unat (of_nat (of_char x) :: 16 word) = unat (of_nat (of_char y) :: 16 word)"
      by simp
    then have "(of_char x :: nat) = of_char y" by (simp only: u)
    then show "x = y" by simp
  qed
  then show ?thesis
    unfolding lit_def by (simp add: inj_map_eq_map)
qed

lemma slice_take: "0 \<le> k \<Longrightarrow> slice s 0 k = take (nat k) s"
  by (auto simp: slice_def Let_def min_def)

lemma slice_from_neg: "0 < k \<Longrightarrow> slice_from s (- k) = drop (length s - nat k) s"
  by (auto simp: slice_from_def slice_def Let_def max_def nat_diff_distrib' nat_add_distrib)

section \<open>The token channel delivers at most once\<close>


lemma consume_absent_keeps:
  "fst (consumeVerificationToken cfg t r) = None \<Longrightarrow> snd (consumeVerificationToken cfg t r) = r"
  by (auto simp: consumeVerificationToken_def Let_def truthy_def split: if_splits option.splits)

lemma consume_no_token:
  "r KEY = None \<Longrightarrow> consumeVerificationToken cfg t r = (None, r)"
  by (simp add: consumeVerificationToken_def redis_get_def truthy_def Let_def)


lemma getRedis_cfg_full: "getRedis cfg_full"
  by (simp add: getRedis_def cfg_full_def truthy_def lit_def)

lemma getRedis_cfg_no_redis: "\<not> getRedis cfg_no_redis"
  by (simp add: getRedis_def cfg_no_redis_def truthy_def)



section \<open>The handshake path of the receiver\<close>

lemma redact_long:
  "12 < length tok \<Longrightarrow> redact tok = take 8 tok @ [ellipsis] @ drop (length tok - 4) tok"
  using slice_take [of 8 tok] slice_from_neg [of 4 tok] by (simp add: redact_def)

lemma POST_handshake:
  "handshake_token req = Some tok \<Longrightarrow>
   POST h cfg f now req w =
     (Inr (Json_verification_token tok),
      w\<lparr>console := console w @ [Console_log (lit ''[notion] verification_token received: '' @ redact tok)]\<rparr>)"
  by (simp add: POST_def)

lemma handshake_token_request:
  "handshake_token handshake_request = Some (lit ''secret_tok_0123456789'')"
  by (simp add: handshake_token_def handshake_request_def truthy_def lit_def)

text \<open>
  Claim C7, as amended. On the handshake path the receiver logs one line: the fixed prefix
  followed by the token itself when it has at most 12 characters, and otherwise by its
  first 8 characters, an ellipsis and its last 4 characters, 13 characters in all.
\<close>

theorem handshake_log_redacted:
  assumes "handshake_token req = Some tok"
  shows "console (snd (POST h cfg f now req w)) =
           console w @ [Console_log (lit ''[notion] verification_token received: ''
              @ (if length tok \<le> 12 then tok
                 else take 8 tok @ [ellipsis] @ drop (length tok - 4) tok))]
       \<and> (12 < length tok \<longrightarrow> length (redact tok) = 13)"
  using assms by (simp add: POST_handshake redact_long) (simp add: redact_def)

theorem handshake_log_redacted_witness:
  "console (snd (POST scenario_hmac cfg_full no_faults (lit ''2026-01-01T00:00:00.000Z'') handshake_request empty_world)) =
     [Console_log (lit ''[notion] verification_token received: secret_t'' @ [ellipsis] @ lit ''6789'')]
   \<and> length (redact (lit ''secret_tok_0123456789'')) = 13"
  using handshake_log_redacted [OF handshake_token_request, of scenario_hmac cfg_full no_faults
      "lit ''2026-01-01T00:00:00.000Z''" empty_world]
  by (simp add: empty_world_def lit_def)

text \<open>
  Claim C7 as stated fails for a short token: the 12-character token \<open>abc123def456\<close>
  appears whole in the log line.
\<close>

theorem short_token_logged_whole:
  "console (snd (POST scenario_hmac cfg_full no_faults (lit ''2026-01-01T00:00:00.000Z'') short_handshake_request empty_world)) =
     [Console_log (lit ''[notion] verification_token received: abc123def456'')]"
  by (simp add: POST_def handshake_token_def short_handshake_request_def truthy_def redact_def
      empty_world_def lit_def)

text \<open>
  Claim C1 at the handshake body \<open>{"verification_token":"secret_tok_0123456789"}\<close>, with
  the key-value service configured: the receiver echoes the token, the key-value service
  holds nothing afterwards, and the admin route a minute later answers 404.
\<close>

theorem handshake_token_not_stored:
  "fst (POST scenario_hmac cfg_full no_faults (lit ''2026-01-01T00:00:00.000Z'') handshake_request empty_world)
     = Inr (Json_verification_token (lit ''secret_tok_0123456789''))
   \<and> kvs (snd (POST scenario_hmac cfg_full no_faults (lit ''2026-01-01T00:00:00.000Z'') handshake_request empty_world))
     = Map.empty
   \<and> adminGET cfg_full (Some (lit ''admin'')) 60
        (kvs (snd (POST scenario_hmac cfg_full no_faults (lit ''2026-01-01T00:00:00.000Z'') handshake_request empty_world)))
     = ((404, lit ''No token available''), Map.empty)"
proof -
  have admin: "AQUEDUCT_ADMIN_SECRET cfg_full = Some (lit ''admin'')" "lit ''admin'' \<noteq> []"
    by (simp_all add: cfg_full_def lit_def)
  show ?thesis
    using admin
    by (simp add: POST_handshake [OF handshake_token_request] empty_world_def adminGET_def
        consume_no_token truthy_def)
qed

section \<open>Waiting for the rate limiter\<close>

lemma throttle_granted_later:
  assumes "throttleOrWait limiter clock n slept = Some res"
  shows "\<exists>k\<ge>n. ok (limiter k)"
proof (rule throttleOrWait.raw_induct
    [where P = "\<lambda>limiter clock n slept res. \<exists>k\<ge>n. ok (limiter k)", OF _ assms])
  fix S :: "(nat \<Rightarrow> limit_result) \<Rightarrow> (nat \<Rightarrow> int) \<Rightarrow> nat \<Rightarrow> int list \<Rightarrow> int list option"
    and limiter clock n slept res
  assume IH: "\<And>l c m sl r. S l c m sl = Some r \<Longrightarrow> \<exists>k\<ge>m. ok (l k)"
    and body: "(if ok (limiter n) then Some slept
                else S limiter clock (Suc n) (slept @ [waitMs (limiter n) (clock n)])) = Some res"
  show "\<exists>k\<ge>n. ok (limiter k)"
  proof (cases "ok (limiter n)")
    case True then show ?thesis by auto
  next
    case False
    with body have "S limiter clock (Suc n) (slept @ [waitMs (limiter n) (clock n)]) = Some res" by simp
    then have "\<exists>k\<ge>Suc n. ok (limiter k)" by (rule IH)
    then obtain k where "k \<ge> Suc n" "ok (limiter k)" by auto
    then show ?thesis by (intro exI [of _ k]) auto
  qed
qed

lemma throttle_first_grant:
  "\<forall>j<k. \<not> ok (limiter (n + j)) \<Longrightarrow> ok (limiter (n + k)) \<Longrightarrow>
   throttleOrWait limiter clock n slept =
     Some (slept @ map (\<lambda>j. waitMs (limiter j) (clock j)) [n..<n + k])"
proof (induction k arbitrary: n slept)
  case 0
  then show ?case by (simp add: throttleOrWait.simps)
next
  case (Suc k)
  have denied: "\<not> ok (limiter n)" using Suc.prems(1) by (metis add.right_neutral zero_less_Suc)
  have "\<forall>j<k. \<not> ok (limiter (Suc n + j))" using Suc.prems(1) by (metis Suc_less_eq add_Suc_shift)
  moreover have "ok (limiter (Suc n + k))" using Suc.prems(2) by simp
  ultimately have step: "throttleOrWait limiter clock (Suc n) (slept @ [waitMs (limiter n) (clock n)]) =
      Some ((slept @ [waitMs (limiter n) (clock n)]) @ map (\<lambda>j. waitMs (limiter j) (clock j)) [Suc n..<Suc n + k])"
    by (rule Suc.IH)
  have range: "[n..<n + Suc k] = n # [Suc n..<Suc n + k]"
    by (simp add: upt_rec)
  have "throttleOrWait limiter clock n slept
      = throttleOrWait limiter clock (Suc n) (slept @ [waitMs (limiter n) (clock n)])"
    using denied by (subst throttleOrWait.simps) simp
  then show ?case
    unfolding step range by simp
qed

text \<open>
  Claim C8. With a counter service configured, \<open>throttleOrWait\<close> on the limiter of
  \<open>getLimiter\<close> returns at the first answer that grants, after one sleep of
  \<open>max 250 (reset - now)\<close> milliseconds for each denial before it; when no answer ever
  grants it never returns (and has no failing outcome). Without a counter service it
  returns at once, having slept not at all.
\<close>

theorem acquire_blocks_until_granted:
  "(getRedis cfg \<longrightarrow> (\<forall>j<k. \<not> success (backend name j)) \<longrightarrow> success (backend name k) \<longrightarrow>
      throttleOrWait (getLimiter cfg backend name) clock 0 [] =
        Some (map (\<lambda>j. max 250 (reset (backend name j) - clock j)) [0..<k]))
   \<and> (getRedis cfg \<longrightarrow> (\<forall>j. \<not> success (backend name j)) \<longrightarrow>
      throttleOrWait (getLimiter cfg backend name) clock 0 [] = None)
   \<and> (\<not> getRedis cfg \<longrightarrow> throttleOrWait (getLimiter cfg backend name) clock 0 [] = Some [])"
proof (intro conjI impI)
  assume c: "getRedis cfg" and d: "\<forall>j<k. \<not> success (backend name j)" and g: "success (backend name k)"
  have "\<forall>j<k. \<not> ok (getLimiter cfg backend name (0 + j))"
    using c d by (simp add: getLimiter_def Let_def)
  moreover have "ok (getLimiter cfg backend name (0 + k))"
    using c g by (simp add: getLimiter_def Let_def)
  ultimately have "throttleOrWait (getLimiter cfg backend name) clock 0 [] =
      Some ([] @ map (\<lambda>j. waitMs (getLimiter cfg backend name j) (clock j)) [0..<0 + k])"
    by (rule throttle_first_grant)
  moreover have "waitMs (getLimiter cfg backend name j) (clock j) = max 250 (reset (backend name j) - clock j)" for j
    using c by (simp add: getLimiter_def waitMs_def Let_def)
  ultimately show "throttleOrWait (getLimiter cfg backend name) clock 0 [] =
        Some (map (\<lambda>j. max 250 (reset (backend name j) - clock j)) [0..<k])"
    by simp
next
  assume c: "getRedis cfg" and d: "\<forall>j. \<not> success (backend name j)"
  show "throttleOrWait (getLimiter cfg backend name) clock 0 [] = None"
  proof (cases "throttleOrWait (getLimiter cfg backend name) clock 0 []")
    case None then show ?thesis .
  next
    case (Some res)
    from throttle_granted_later [OF this] obtain k where "ok (getLimiter cfg backend name k)" by auto
    with c d show ?thesis by (simp add: getLimiter_def Let_def)
  qed
next
  assume "\<not> getRedis cfg"
  then show "throttleOrWait (getLimiter cfg backend name) clock 0 [] = Some []"
    by (subst throttleOrWait.simps) (simp add: getLimiter_def)
qed

theorem acquire_blocks_until_granted_witness:
  "throttleOrWait (getLimiter cfg_full denies_twice Notion) sample_clock 0 [] = Some [700, 250]
   \<and> throttleOrWait (getLimiter cfg_full always_denies Notion) sample_clock 0 [] = None
   \<and> throttleOrWait (getLimiter cfg_no_redis denies_twice Notion) sample_clock 0 [] = Some []"
proof -
  have "\<forall>j<2. \<not> success (denies_twice Notion j)"
    by (simp add: denies_twice_def)
  moreover have "success (denies_twice Notion 2)"
    by (simp add: denies_twice_def)
  moreover have "[0..<2] = [0, Suc 0]"
    by (simp add: upt_rec)
  moreover have "\<forall>j. \<not> success (always_denies Notion j)"
    by (simp add: always_denies_def)
  ultimately show ?thesis
    using acquire_blocks_until_granted [of cfg_full 2 denies_twice Notion sample_clock]
      acquire_blocks_until_granted [of cfg_full 0 always_denies Notion sample_clock]
      acquire_blocks_until_granted [of cfg_no_redis 0 denies_twice Notion sample_clock]
      getRedis_cfg_full getRedis_cfg_no_redis
    by (simp add: denies_twice_def sample_clock_def)
qed

section \<open>The signature check\<close>

lemma unat_code_unit: "n < 65536 \<Longrightarrow> unat (of_nat n :: 16 word) = n"
  by (simp add: unat_of_nat)

lemma unat_hexdigit: "d < 16 \<Longrightarrow> unat (hexdigit d) = (if d < 10 then 48 + d else 87 + d)"
  unfolding hexdigit_def by (simp add: unat_code_unit del: of_nat_add)

lemma unhex_hexdigit: "d < 16 \<Longrightarrow> unhex (hexdigit d) = Some d"
  by (simp add: unhex_def unat_hexdigit Let_def)

lemma byte_split: "of_nat (16 * (unat b div 16) + unat b mod 16) = (b :: 8 word)"
  by simp

lemma hex_decode_encode: "hex_decode (hex_encode bs) = bs"
proof (induction bs)
  case Nil
  show ?case by (simp add: hex_encode_def)
next
  case (Cons b bs)
  have hi: "unat b div 16 < 16"
  proof -
    have "unat b < 256" using unsigned_less [of b, where ?'a = nat] by simp
    then show ?thesis by arith
  qed
  have unfold: "hex_encode (b # bs) = hexdigit (unat b div 16) # hexdigit (unat b mod 16) # hex_encode bs"
    by (simp add: hex_encode_def)
  show ?case
    unfolding unfold using Cons.IH hi
    by (simp add: unhex_hexdigit byte_split del: of_nat_add of_nat_mult)
qed

lemma timingSafeEqualHex_digest:
  "timingSafeEqualHex sig (hmacSha256Hex h secret payload) \<longleftrightarrow> hex_decode sig = h secret payload"
  by (auto simp: timingSafeEqualHex_def hmacSha256Hex_def hex_decode_encode Let_def)

lemma hex_encode_empty: "hex_encode bs = [] \<longleftrightarrow> bs = []"
  by (cases bs) (simp_all add: hex_encode_def)

section \<open>Queueing an event\<close>

lemma upstream_answered:
  "f (tick w) = None \<Longrightarrow>
   upstream f rq w =
     (Inr (fst (serve rq (w\<lparr>tick := Suc (tick w), attempted := attempted w @ [rq]\<rparr>))),
      snd (serve rq (w\<lparr>tick := Suc (tick w), attempted := attempted w @ [rq]\<rparr>)))"
  by (simp add: upstream_def Let_def split: prod.splits)

lemma upstream_failed:
  "f (tick w) = Some err \<Longrightarrow>
   upstream f rq w = (Inl err, w\<lparr>tick := Suc (tick w), attempted := attempted w @ [rq]\<rparr>)"
  by (simp add: upstream_def Let_def)

lemma getDatabaseDataSourceId_answered:
  assumes "truthy (NOTION_API_KEY cfg)" and "f (tick w) = None"
    and "data_source_id w = Some ds" and "ds \<noteq> []"
  shows "getDatabaseDataSourceId cfg f db w =
           (Inr ds, w\<lparr>tick := Suc (tick w), attempted := attempted w @ [Get_database db]\<rparr>)"
  using assms
  by (simp add: getDatabaseDataSourceId_def await_def notionFetch_def upstream_answered)

lemma take_one_filter: "(filter P xs \<noteq> []) \<longleftrightarrow> (\<exists>x\<in>set xs. P x)"
  by (auto simp: filter_empty_conv)

lemma eventExists_answered:
  assumes "truthy (NOTION_API_KEY cfg)" and "f (tick w) = None"
  shows "eventExists cfg f ds e w =
           (Inr (\<exists>p\<in>set (rows w). matches (Rich_text_equals ''Event ID'' e) p),
            w\<lparr>tick := Suc (tick w),
              attempted := attempted w @ [Query_data_source ds (Rich_text_equals ''Event ID'' e) 1 False]\<rparr>)"
  using assms
  by (simp add: eventExists_def await_def notionFetch_def upstream_answered take_one_filter
      del: matches.simps)

lemma writeEventToQueue_answered:
  assumes "truthy (NOTION_API_KEY cfg)" and "f (tick w) = None"
  shows "writeEventToQueue cfg f now ps w =
           (Inr (),
            w\<lparr>tick := Suc (tick w),
              attempted := attempted w @ [Create_page (databaseId ps) (strip_undefined (page_properties ps now))],
              rows := rows w @ [created_row w ps now]\<rparr>)"
  using assms
  by (simp add: writeEventToQueue_def await_def notionFetch_def upstream_answered created_row_def
      split: prod.splits)

lemma POST_event:
  assumes hs: "handshake_token req = None"
    and sg: "well_signed h cfg req"
    and body: "body_json req = Some evt"
    and db: "NOTION_EVENTS_QUEUE_DB_ID cfg = Some db" "db \<noteq> []"
    and ev: "evt_id evt = Some e" "e \<noteq> []"
    and key: "truthy (NOTION_API_KEY cfg)"
    and ds: "data_source_id w = Some ds" "ds \<noteq> []"
    and nf: "\<forall>n. f n = None"
  shows "POST h cfg f now req w =
     (if \<exists>p\<in>set (rows w). matches (Rich_text_equals ''Event ID'' e) p
      then (Inr Json_ok_deduped,
            w\<lparr>tick := tick w + 2,
              attempted := attempted w @ [Get_database db,
                 Query_data_source ds (Rich_text_equals ''Event ID'' e) 1 False]\<rparr>)
      else (Inr Json_ok,
            w\<lparr>tick := tick w + 3,
              attempted := attempted w @ [Get_database db,
                 Query_data_source ds (Rich_text_equals ''Event ID'' e) 1 False,
                 Create_page db (strip_undefined (page_properties (write_args db evt) now))],
              rows := rows w @ [created_row w (write_args db evt) now]\<rparr>))"
proof -
  have s: "signature_of req \<noteq> []"
    using sg by (simp add: well_signed_def)
  have secret: "truthy (WEBHOOK_VERIFICATION_TOKEN cfg)"
    using sg by (simp add: well_signed_def)
  have ok: "timingSafeEqualHex (signature_of req) (hmacSha256Hex h (the (WEBHOOK_VERIFICATION_TOKEN cfg)) (rawBody req))"
    using sg s by (simp add: timingSafeEqualHex_digest well_signed_def)
  have t: "truthy (NOTION_EVENTS_QUEUE_DB_ID cfg)" "truthy (evt_id evt)"
    using db ev by (simp_all add: truthy_def)
  show ?thesis
    using hs secret s ok body db ev key nf ds t
    by (simp add: POST_def await_def getDatabaseDataSourceId_answered eventExists_answered
        writeEventToQueue_answered created_row_def write_args_def del: matches.simps)
qed

lemma POST_signature_rejected:
  assumes "handshake_token req = None" and "truthy (WEBHOOK_VERIFICATION_TOKEN cfg)"
    and "signature_of req = []
         \<or> hex_decode (signature_of req) \<noteq> h (the (WEBHOOK_VERIFICATION_TOKEN cfg)) (rawBody req)"
  shows "POST h cfg f now req w = (Inr (Plain 401 (lit ''Invalid signature'')), w)"
  using assms by (auto simp: POST_def timingSafeEqualHex_digest)

lemma await_not_plain:
  assumes "\<And>x w'. fst (k x w') \<noteq> Inr (Plain c m)"
  shows "fst (await a k w) \<noteq> Inr (Plain c m)"
  using assms by (auto simp: await_def split: prod.splits sum.splits)

lemma POST_signature_accepted:
  assumes "handshake_token req = None" and "well_signed h cfg req"
  shows "fst (POST h cfg f now req w) \<noteq> Inr (Plain 401 (lit ''Invalid signature''))"
proof -
  have s: "signature_of req \<noteq> []"
    using assms(2) by (simp add: well_signed_def)
  have ok: "timingSafeEqualHex (signature_of req) (hmacSha256Hex h (the (WEBHOOK_VERIFICATION_TOKEN cfg)) (rawBody req))"
    using assms(2) s by (simp add: timingSafeEqualHex_digest well_signed_def)
  have secret: "truthy (WEBHOOK_VERIFICATION_TOKEN cfg)"
    using assms(2) by (simp add: well_signed_def)
  have chain: "fst (await (getDatabaseDataSourceId cfg f db)
                      (\<lambda>dsId. await (eventExists cfg f dsId e)
                        (\<lambda>exists.
                           if exists then (\<lambda>w'. (Inr Json_ok_deduped, w'))
                           else await (writeEventToQueue cfg f now ps)
                                 (\<lambda>_ w'. (Inr Json_ok, w')))) w) \<noteq> Inr (Plain 401 (lit ''Invalid signature''))"
    for db e ps
    by (intro await_not_plain) (simp_all add: await_not_plain)
  show ?thesis
    using assms(1) s ok secret chain
    by (simp add: POST_def Let_def split: option.splits)
qed

text \<open>
  Claim C4, as amended. On the path that is not the handshake, with a signing secret
  configured, the receiver compares the hexadecimal decoding of the signature header with
  the HMAC of the raw body under the secret: an absent or empty signature, or one whose
  decoding is not the digest, is answered 401 and changes nothing; a signature whose
  decoding is the digest is not answered 401, and so the digest's own rendering is
  accepted. The comparison is \<open>crypto.timingSafeEqual\<close> on the decoded buffers.
\<close>

theorem signature_check:
  assumes "handshake_token req = None" and "truthy (WEBHOOK_VERIFICATION_TOKEN cfg)"
  shows "(signature_of req = []
            \<or> hex_decode (signature_of req) \<noteq> h (the (WEBHOOK_VERIFICATION_TOKEN cfg)) (rawBody req)
          \<longrightarrow> POST h cfg f now req w = (Inr (Plain 401 (lit ''Invalid signature'')), w))
       \<and> (signature_of req \<noteq> []
            \<and> hex_decode (signature_of req) = h (the (WEBHOOK_VERIFICATION_TOKEN cfg)) (rawBody req)
          \<longrightarrow> fst (POST h cfg f now req w) \<noteq> Inr (Plain 401 (lit ''Invalid signature'')))
       \<and> (h (the (WEBHOOK_VERIFICATION_TOKEN cfg)) (rawBody req) \<noteq> []
            \<and> signature_of req = hmacSha256Hex h (the (WEBHOOK_VERIFICATION_TOKEN cfg)) (rawBody req)
          \<longrightarrow> fst (POST h cfg f now req w) \<noteq> Inr (Plain 401 (lit ''Invalid signature'')))"
proof (intro conjI impI)
  assume "signature_of req = []
            \<or> hex_decode (signature_of req) \<noteq> h (the (WEBHOOK_VERIFICATION_TOKEN cfg)) (rawBody req)"
  with assms show "POST h cfg f now req w = (Inr (Plain 401 (lit ''Invalid signature'')), w)"
    by (rule POST_signature_rejected)
next
  assume "signature_of req \<noteq> []
            \<and> hex_decode (signature_of req) = h (the (WEBHOOK_VERIFICATION_TOKEN cfg)) (rawBody req)"
  with assms have "well_signed h cfg req" by (simp add: well_signed_def)
  with assms(1) show "fst (POST h cfg f now req w) \<noteq> Inr (Plain 401 (lit ''Invalid signature''))"
    by (rule POST_signature_accepted)
next
  assume "h (the (WEBHOOK_VERIFICATION_TOKEN cfg)) (rawBody req) \<noteq> []
            \<and> signature_of req = hmacSha256Hex h (the (WEBHOOK_VERIFICATION_TOKEN cfg)) (rawBody req)"
  with assms have "well_signed h cfg req"
    by (simp add: well_signed_def hmacSha256Hex_def hex_decode_encode hex_encode_empty)
  with assms(1) show "fst (POST h cfg f now req w) \<noteq> Inr (Plain 401 (lit ''Invalid signature''))"
    by (rule POST_signature_accepted)
qed

lemma scenario_digest:
  "scenario_hmac (lit ''whsec_test'') scenario_body =
     [0xa6, 0x95, 0x79, 0xf8, 0x8e, 0xcb, 0x1f, 0xc2, 0xa9, 0x1d, 0xf4, 0x28, 0x1f, 0x5d, 0x7f, 0x10,
      0xf7, 0x54, 0xd2, 0xf3, 0x74, 0x51, 0x47, 0x06, 0x9b, 0x06, 0x4f, 0x45, 0x22, 0x86, 0xd2, 0xfc]"
  by (simp add: scenario_hmac_def)

lemma scenario_secret:
  "WEBHOOK_VERIFICATION_TOKEN cfg_full = Some (lit ''whsec_test'')"
  "truthy (WEBHOOK_VERIFICATION_TOKEN cfg_full)"
  by (simp_all add: WEBHOOK_VERIFICATION_TOKEN_def cfg_full_def truthy_def lit_def)

lemma scenario_hex:
  "hmacSha256Hex scenario_hmac (lit ''whsec_test'') scenario_body
     = lit ''a69579f88ecb1fc2a91df4281f5d7f10f754d2f3745147069b064f452286d2fc''"
  unfolding hmacSha256Hex_def scenario_digest by (simp add: hex_encode_def hexdigit_def lit_def)

lemma uppercase_decodes:
  "hex_decode (lit ''A69579F88ECB1FC2A91DF4281F5D7F10F754D2F3745147069B064F452286D2FC'')
     = scenario_hmac (lit ''whsec_test'') scenario_body"
  unfolding scenario_digest by (simp add: lit_def unhex_def)

lemma flipped_decodes:
  "hex_decode (lit ''b69579f88ecb1fc2a91df4281f5d7f10f754d2f3745147069b064f452286d2fc'')
     \<noteq> scenario_hmac (lit ''whsec_test'') scenario_body"
  unfolding scenario_digest by (simp add: lit_def unhex_def)

lemma scenario_requests_not_handshake:
  "handshake_token scenario_request = None"
  "handshake_token uppercase_request = None"
  "handshake_token flipped_request = None"
  by (simp_all add: handshake_token_def scenario_request_def uppercase_request_def
      flipped_request_def truthy_def)

lemma scenario_signatures:
  "signature_of scenario_request = lit ''a69579f88ecb1fc2a91df4281f5d7f10f754d2f3745147069b064f452286d2fc''"
  "signature_of uppercase_request = lit ''A69579F88ECB1FC2A91DF4281F5D7F10F754D2F3745147069B064F452286D2FC''"
  "signature_of flipped_request = lit ''b69579f88ecb1fc2a91df4281f5d7f10f754d2f3745147069b064f452286d2fc''"
  "rawBody scenario_request = scenario_body"
  "rawBody uppercase_request = scenario_body"
  "rawBody flipped_request = scenario_body"
  by (simp_all add: signature_of_def scenario_request_def uppercase_request_def flipped_request_def)

lemma truthy_lit: "truthy (Some (lit s)) \<longleftrightarrow> s \<noteq> []"
  by (simp add: truthy_def lit_def)

lemma scenario_well_signed:
  "well_signed scenario_hmac cfg_full scenario_request"
  "well_signed scenario_hmac cfg_full uppercase_request"
proof -
  have "lit ''a69579f88ecb1fc2a91df4281f5d7f10f754d2f3745147069b064f452286d2fc'' \<noteq> []"
    "lit ''A69579F88ECB1FC2A91DF4281F5D7F10F754D2F3745147069B064F452286D2FC'' \<noteq> []"
    by (simp_all add: lit_def)
  moreover have "hex_decode (lit ''a69579f88ecb1fc2a91df4281f5d7f10f754d2f3745147069b064f452286d2fc'')
      = scenario_hmac (lit ''whsec_test'') scenario_body"
    using hex_decode_encode [of "scenario_hmac (lit ''whsec_test'') scenario_body"]
    by (simp add: scenario_hex [unfolded hmacSha256Hex_def])
  ultimately show "well_signed scenario_hmac cfg_full scenario_request"
    "well_signed scenario_hmac cfg_full uppercase_request"
    by (simp_all add: well_signed_def scenario_secret(1) truthy_lit scenario_signatures uppercase_decodes)
qed

lemma scenario_event:
  "body_json scenario_request = Some (the (body_json scenario_request))"
  "body_json uppercase_request = Some (the (body_json scenario_request))"
  "evt_id (the (body_json scenario_request)) = Some (lit ''evt_1'')"
  "lit ''evt_1'' \<noteq> []"
  "NOTION_EVENTS_QUEUE_DB_ID cfg_full = Some (lit ''db_1'')"
  "lit ''db_1'' \<noteq> []"
  "truthy (NOTION_API_KEY cfg_full)"
  "data_source_id empty_world = Some (lit ''ds_1'')"
  "lit ''ds_1'' \<noteq> []"
  "\<forall>n. no_faults n = None"
  "rows empty_world = []"
  by (simp_all add: scenario_request_def uppercase_request_def cfg_full_def truthy_def
      empty_world_def no_faults_def lit_def)

text \<open>
  Claim C4 as stated fails: the digest written in upper case differs from the computed
  lower-case rendering, and the receiver accepts it and queues the event.
\<close>

theorem uppercase_signature_accepted:
  "fst (POST scenario_hmac cfg_full no_faults (lit ''2026-01-01T00:00:00.000Z'') uppercase_request empty_world)
     = Inr Json_ok
   \<and> signature_of uppercase_request
       \<noteq> hmacSha256Hex scenario_hmac (lit ''whsec_test'') (rawBody uppercase_request)"
proof -
  have "lit ''A69579F88ECB1FC2A91DF4281F5D7F10F754D2F3745147069B064F452286D2FC''
      \<noteq> lit ''a69579f88ecb1fc2a91df4281f5d7f10f754d2f3745147069b064f452286d2fc''"
    by (simp add: lit_inj)
  then show ?thesis
    using POST_event [OF scenario_requests_not_handshake(2) scenario_well_signed(2) scenario_event(2)
        scenario_event(5) scenario_event(6) scenario_event(3) scenario_event(4) scenario_event(7)
        scenario_event(8) scenario_event(9) scenario_event(10),
        of "lit ''2026-01-01T00:00:00.000Z''"]
    by (simp add: scenario_event(11) scenario_signatures scenario_hex)
qed

theorem signature_check_witness:
  "POST scenario_hmac cfg_full no_faults (lit ''2026-01-01T00:00:00.000Z'') flipped_request empty_world
     = (Inr (Plain 401 (lit ''Invalid signature'')), empty_world)
   \<and> fst (POST scenario_hmac cfg_full no_faults (lit ''2026-01-01T00:00:00.000Z'') scenario_request empty_world)
       \<noteq> Inr (Plain 401 (lit ''Invalid signature''))"
proof -
  have "scenario_hmac (lit ''whsec_test'') scenario_body \<noteq> []"
    by (simp add: scenario_digest)
  then show ?thesis
    using signature_check [OF scenario_requests_not_handshake(3) scenario_secret(2),
        of scenario_hmac no_faults "lit ''2026-01-01T00:00:00.000Z''" empty_world]
      signature_check [OF scenario_requests_not_handshake(1) scenario_secret(2),
        of scenario_hmac no_faults "lit ''2026-01-01T00:00:00.000Z''" empty_world]
      flipped_decodes
    by (simp add: scenario_signatures scenario_secret(1) scenario_hex)
qed

lemma strip_undefined_defined: "\<forall>(k, v)\<in>set (strip_undefined ps). v \<noteq> None"
  by (auto simp: strip_undefined_def)

lemma strip_undefined_keys:
  "map fst (strip_undefined ps) = map fst (filter (\<lambda>(k, v). v \<noteq> None) ps)"
  by (simp add: strip_undefined_def)

lemma writeEventToQueue_attempts:
  assumes "truthy (NOTION_API_KEY cfg)"
  shows "attempted (snd (writeEventToQueue cfg f now ps w)) =
     attempted w @ [Create_page (databaseId ps) (strip_undefined (page_properties ps now))]"
  using assms
  by (cases "f (tick w)")
     (simp_all add: writeEventToQueue_def await_def notionFetch_def upstream_answered upstream_failed
        split: prod.splits)

lemma sent_fixed_properties:
  "map_of (strip_undefined (page_properties ps now)) ''Status'' = Some (Some (Select (lit ''New'')))"
  "map_of (strip_undefined (page_properties ps now)) ''Needs human review'' = Some (Some (Checkbox False))"
  "map_of (strip_undefined (page_properties ps now)) ''Scipio log'' =
     Some (Some (Rich_text [lit ''Aqueduct: queued event '' @ eventId ps @ lit '' ('' @ event_type ps
                              @ lit '') at '' @ now]))"
  "map_of (strip_undefined (page_properties ps now)) ''Event ID'' = Some (Some (Rich_text [eventId ps]))"
  by (simp_all add: strip_undefined_def page_properties_def Let_def)

text \<open>
  Claim C9. With the API key configured, \<open>writeEventToQueue\<close> makes one create call
  whose properties have status \<open>New\<close>, the review flag false and a log line with the
  event's identifier, its type and the instant of ingestion; no property of the call has
  an undefined value, and the properties sent are those whose value was defined, in their
  order.
\<close>

theorem queued_record_properties:
  assumes "truthy (NOTION_API_KEY cfg)"
  shows "attempted (snd (writeEventToQueue cfg f now ps w)) =
           attempted w @ [Create_page (databaseId ps) (strip_undefined (page_properties ps now))]
       \<and> map_of (strip_undefined (page_properties ps now)) ''Status'' = Some (Some (Select (lit ''New'')))
       \<and> map_of (strip_undefined (page_properties ps now)) ''Needs human review''
           = Some (Some (Checkbox False))
       \<and> map_of (strip_undefined (page_properties ps now)) ''Scipio log'' =
           Some (Some (Rich_text [lit ''Aqueduct: queued event '' @ eventId ps @ lit '' (''
                                    @ event_type ps @ lit '') at '' @ now]))
       \<and> (\<forall>(k, v)\<in>set (strip_undefined (page_properties ps now)). v \<noteq> None)
       \<and> map fst (strip_undefined (page_properties ps now))
           = map fst (filter (\<lambda>(k, v). v \<noteq> None) (page_properties ps now))"
  using writeEventToQueue_attempts [OF assms] sent_fixed_properties(1,2,3)
    strip_undefined_defined strip_undefined_keys
  by blast

theorem queued_record_properties_witness:
  "attempted (snd (writeEventToQueue cfg_full no_faults (lit ''2026-01-01T00:00:00.000Z'') bare_params empty_world))
     = [Create_page (lit ''db_1'')
         [(''Name'', Some (Title (lit ''Other '' @ [bullet] @ lit '' object:''))),
          (''Event ID'', Some (Rich_text [lit ''evt_2''])),
          (''Type'', Some (Select (lit ''Other''))),
          (''Status'', Some (Select (lit ''New''))),
          (''Needs human review'', Some (Checkbox False)),
          (''Payload (json)'', Some (Rich_text [lit ''{\"id\":\"evt_2\"}''])),
          (''Created'', Some (Date (lit ''2026-01-01T00:00:00.000Z''))),
          (''Scipio log'', Some (Rich_text [lit ''Aqueduct: queued event evt_2 (Other) at 2026-01-01T00:00:00.000Z'']))]]
   \<and> map fst (strip_undefined (page_properties bare_params (lit ''2026-01-01T00:00:00.000Z'')))
     = [''Name'', ''Event ID'', ''Type'', ''Status'', ''Needs human review'', ''Payload (json)'',
        ''Created'', ''Scipio log'']"
  using queued_record_properties [OF scenario_event(7), of no_faults "lit ''2026-01-01T00:00:00.000Z''"
      bare_params empty_world]
  by (simp add: empty_world_def strip_undefined_def page_properties_def bare_params_def truthy_def
      trim_def is_ws_def slice_def bullet_def lit_def)

lemma created_row_props:
  "map_of (properties (created_row w ps now)) ''Event ID'' = Some (Rich_text [eventId ps])"
  "map_of (properties (created_row w ps now)) ''Status'' = Some (Select (lit ''New''))"
  by (simp_all add: created_row_def defined_props_def strip_undefined_def page_properties_def Let_def)

lemma created_row_live: "live (eventId ps) (created_row w ps now)"
  by (simp add: live_def created_row_props lit_inj)

text \<open>
  Claim C3. For a well-signed event with an identifier, a configured receiver and upstream
  calls that are answered: when a row with that event identifier exists, the receiver
  answers \<open>{ok: true, deduped: true}\<close>, leaves the rows as they are and makes no create
  call; when none exists, the first delivery is queued, the second is answered as deduped
  and writes nothing, and exactly one row with that identifier and a status other than
  \<open>Deduped\<close> remains.
\<close>

theorem redelivery_is_deduped:
  assumes hs: "handshake_token req = None"
    and sg: "well_signed h cfg req"
    and body: "body_json req = Some evt"
    and db: "NOTION_EVENTS_QUEUE_DB_ID cfg = Some db" "db \<noteq> []"
    and ev: "evt_id evt = Some e" "e \<noteq> []"
    and key: "truthy (NOTION_API_KEY cfg)"
    and ds: "data_source_id w = Some ds" "ds \<noteq> []"
    and nf: "\<forall>n. f n = None"
  shows "((\<exists>p\<in>set (rows w). matches (Rich_text_equals ''Event ID'' e) p) \<longrightarrow>
            fst (POST h cfg f now req w) = Inr Json_ok_deduped
          \<and> rows (snd (POST h cfg f now req w)) = rows w
          \<and> attempted (snd (POST h cfg f now req w)) =
               attempted w @ [Get_database db, Query_data_source ds (Rich_text_equals ''Event ID'' e) 1 False])
       \<and> ((\<forall>p\<in>set (rows w). \<not> matches (Rich_text_equals ''Event ID'' e) p) \<longrightarrow>
            fst (POST h cfg f now req w) = Inr Json_ok
          \<and> fst (POST h cfg f now' req (snd (POST h cfg f now req w))) = Inr Json_ok_deduped
          \<and> rows (snd (POST h cfg f now' req (snd (POST h cfg f now req w))))
              = rows (snd (POST h cfg f now req w))
          \<and> length (filter (live e) (rows (snd (POST h cfg f now' req (snd (POST h cfg f now req w)))))) = 1)"
proof (intro conjI impI)
  assume dup: "\<exists>p\<in>set (rows w). matches (Rich_text_equals ''Event ID'' e) p"
  have first: "POST h cfg f now req w =
      (Inr Json_ok_deduped,
       w\<lparr>tick := tick w + 2,
         attempted := attempted w @ [Get_database db,
            Query_data_source ds (Rich_text_equals ''Event ID'' e) 1 False]\<rparr>)"
    using POST_event [OF hs sg body db ev key ds nf, of now] dup by (simp del: matches.simps)
  show "fst (POST h cfg f now req w) = Inr Json_ok_deduped"
    and "rows (snd (POST h cfg f now req w)) = rows w"
    and "attempted (snd (POST h cfg f now req w)) =
           attempted w @ [Get_database db, Query_data_source ds (Rich_text_equals ''Event ID'' e) 1 False]"
    by (simp_all add: first)
next
  assume fresh: "\<forall>p\<in>set (rows w). \<not> matches (Rich_text_equals ''Event ID'' e) p"
  let ?row = "created_row w (write_args db evt) now"
  let ?w1 = "w\<lparr>tick := tick w + 3,
              attempted := attempted w @ [Get_database db,
                 Query_data_source ds (Rich_text_equals ''Event ID'' e) 1 False,
                 Create_page db (strip_undefined (page_properties (write_args db evt) now))],
              rows := rows w @ [?row]\<rparr>"
  have first: "POST h cfg f now req w = (Inr Json_ok, ?w1)"
    using POST_event [OF hs sg body db ev key ds nf, of now] fresh by (simp del: matches.simps)
  have id: "eventId (write_args db evt) = e"
    using ev by (simp add: write_args_def)
  have row: "live e ?row"
    using created_row_live [of "write_args db evt" w now] by (simp add: id)
  then have seen: "\<exists>p\<in>set (rows ?w1). matches (Rich_text_equals ''Event ID'' e) p"
    by (auto simp: live_def simp del: matches.simps)
  have ds1: "data_source_id ?w1 = Some ds" using ds by simp
  have second: "POST h cfg f now' req ?w1 =
      (Inr Json_ok_deduped,
       ?w1\<lparr>tick := tick ?w1 + 2,
           attempted := attempted ?w1 @ [Get_database db,
              Query_data_source ds (Rich_text_equals ''Event ID'' e) 1 False]\<rparr>)"
    using POST_event [OF hs sg body db ev key ds1 ds(2) nf, of now'] seen
    by (simp del: matches.simps)
  have none: "filter (live e) (rows w) = []"
    using fresh by (auto simp: live_def filter_empty_conv simp del: matches.simps)
  show "fst (POST h cfg f now req w) = Inr Json_ok"
    by (simp add: first)
  show "fst (POST h cfg f now' req (snd (POST h cfg f now req w))) = Inr Json_ok_deduped"
    unfolding first snd_conv second by simp
  show "rows (snd (POST h cfg f now' req (snd (POST h cfg f now req w))))
              = rows (snd (POST h cfg f now req w))"
    unfolding first snd_conv second by simp
  show "length (filter (live e) (rows (snd (POST h cfg f now' req (snd (POST h cfg f now req w)))))) = 1"
    unfolding first snd_conv second using row none by simp
qed

theorem redelivery_is_deduped_witness:
  "fst (POST scenario_hmac cfg_full no_faults (lit ''2026-01-01T00:00:00.000Z'') scenario_request empty_world)
     = Inr Json_ok
   \<and> fst (POST scenario_hmac cfg_full no_faults (lit ''2026-01-01T00:00:05.000Z'') scenario_request
        (snd (POST scenario_hmac cfg_full no_faults (lit ''2026-01-01T00:00:00.000Z'') scenario_request empty_world)))
     = Inr Json_ok_deduped
   \<and> length (filter (live (lit ''evt_1''))
        (rows (snd (POST scenario_hmac cfg_full no_faults (lit ''2026-01-01T00:00:05.000Z'') scenario_request
          (snd (POST scenario_hmac cfg_full no_faults (lit ''2026-01-01T00:00:00.000Z'') scenario_request empty_world))))))
     = 1"
proof -
  have fresh: "\<forall>p\<in>set (rows empty_world). \<not> matches (Rich_text_equals ''Event ID'' (lit ''evt_1'')) p"
    by (simp add: scenario_event(11))
  show ?thesis
    using redelivery_is_deduped [OF scenario_requests_not_handshake(1) scenario_well_signed(1) scenario_event(1)
        scenario_event(5) scenario_event(6) scenario_event(3) scenario_event(4) scenario_event(7)
        scenario_event(8) scenario_event(9) scenario_event(10),
        of "lit ''2026-01-01T00:00:00.000Z''" "lit ''2026-01-01T00:00:05.000Z''"] fresh
    by blast
qed

section \<open>The loop of the worker: what every step keeps\<close>

lemma preservesI: "(\<And>w. I w \<Longrightarrow> I (snd (m w))) \<Longrightarrow> preserves I m"
  by (simp add: preserves_def)

lemma preservesD: "preserves I m \<Longrightarrow> I w \<Longrightarrow> I (snd (m w))"
  by (simp add: preserves_def)

lemma preserves_await:
  assumes "preserves I m" and "\<And>x. preserves I (k x)"
  shows "preserves I (await m k)"
proof (rule preservesI)
  fix w assume "I w"
  then have "I (snd (m w))" using assms(1) by (rule preservesD [rotated])
  then show "I (snd (await m k w))"
    using assms(2) by (auto simp: await_def preserves_def split: prod.splits sum.splits)
qed

lemma preserves_return: "preserves I (\<lambda>w. (x, w))" "preserves I (Pair x)"
  by (simp_all add: preserves_def)

lemma serve_tick_attempted:
  "tick (snd (serve rq w)) = tick w" "attempted (snd (serve rq w)) = attempted w"
  "console (snd (serve rq w)) = console w"
  by (cases rq; simp add: Let_def split: prod.splits)+

lemma upstream_tick: "tick (snd (upstream f rq w)) = Suc (tick w)"
  by (cases "f (tick w)") (simp_all add: upstream_answered upstream_failed serve_tick_attempted)

lemma upstream_attempted: "attempted (snd (upstream f rq w)) = attempted w @ [rq]"
  by (cases "f (tick w)") (simp_all add: upstream_answered upstream_failed serve_tick_attempted)

lemma upstream_console: "console (snd (upstream f rq w)) = console w"
  by (cases "f (tick w)") (simp_all add: upstream_answered upstream_failed serve_tick_attempted)

text \<open>A property of the rows alone is kept by a call when the store's answer keeps it.\<close>

lemma preserves_upstream_rows:
  assumes "\<And>w :: world. R (rows w) \<Longrightarrow> R (rows (snd (serve rq w)))"
  shows "preserves (\<lambda>w. R (rows w)) (upstream f rq)"
proof (rule preservesI)
  fix w :: world assume r: "R (rows w)"
  show "R (rows (snd (upstream f rq w)))"
  proof (cases "f (tick w)")
    case None
    have "R (rows (snd (serve rq (w\<lparr>tick := Suc (tick w), attempted := attempted w @ [rq]\<rparr>))))"
      by (rule assms) (simp add: r)
    then show ?thesis by (simp add: upstream_answered None)
  next
    case (Some err)
    then show ?thesis by (simp add: upstream_failed r)
  qed
qed

lemma patch_keys:
  "''Event ID'' \<notin> fst ` set in_progress_patch"
  "''Event ID'' \<notin> fst ` set (deduped_patch keeper e)"
  "''Event ID'' \<notin> fst ` set (review_patch typ)"
  "''Event ID'' \<notin> fst ` set (error_patch err)"
  by (simp_all add: in_progress_patch_def deduped_patch_def review_patch_def error_patch_def)

lemma dedupe_and_dispatch_preserves:
  assumes upd: "\<And>ps. ''Event ID'' \<notin> fst ` set ps \<Longrightarrow> preserves I (upstream f (Update_page (page_id pg) ps))"
    and qry: "\<And>flt n srt. preserves I (upstream f (Query_data_source ds flt n srt))"
  shows "preserves I (dedupe_and_dispatch f pg ds)"
  unfolding dedupe_and_dispatch_def Let_def updatePage_def findByEventId_def worker_notionFetch_def
  by (auto intro!: preserves_await upd qry preserves_return patch_keys)

lemma processEvent_preserves:
  assumes upd: "\<And>ps. ''Event ID'' \<notin> fst ` set ps \<Longrightarrow> preserves I (upstream f (Update_page (page_id pg) ps))"
    and qry: "\<And>flt n srt. preserves I (upstream f (Query_data_source ds flt n srt))"
  shows "preserves I (processEvent f pg ds)"
  unfolding processEvent_def updatePage_def worker_notionFetch_def
  by (intro preserves_await upd patch_keys dedupe_and_dispatch_preserves qry)

lemma process_row_preserves:
  assumes upd: "\<And>ps. ''Event ID'' \<notin> fst ` set ps \<Longrightarrow> preserves I (upstream f (Update_page (page_id pg) ps))"
    and qry: "\<And>flt n srt. preserves I (upstream f (Query_data_source ds flt n srt))"
    and con: "\<And>w c. I w \<Longrightarrow> I (w\<lparr>console := c\<rparr>)"
    and w: "I w"
  shows "I (process_row f pg ds w)"
proof -
  have 1: "I (snd (processEvent f pg ds w))"
    using processEvent_preserves [of I f pg ds, OF upd qry] w by (simp add: preserves_def)
  show ?thesis
  proof (cases "processEvent f pg ds w")
    case (Pair r w1)
    with 1 have w1: "I w1" by simp
    show ?thesis
    proof (cases r)
      case (Inr u)
      then show ?thesis using Pair w1 by (simp add: process_row_def con)
    next
      case (Inl err)
      have "I (snd (upstream f (Update_page (page_id pg) (error_patch err))
                 (w1\<lparr>console := console w1 @ [Console_error (lit ''Error processing '' @ page_id pg @ lit '':'') err]\<rparr>)))"
        using upd [OF patch_keys(4), of err] con [OF w1] by (simp add: preserves_def)
      then show ?thesis
        using Pair Inl by (simp add: process_row_def updatePage_def worker_notionFetch_def Let_def)
    qed
  qed
qed

lemma main_loop_preserves:
  assumes upd: "\<And>pg ps. pg \<in> set batch \<Longrightarrow> ''Event ID'' \<notin> fst ` set ps
                   \<Longrightarrow> preserves I (upstream f (Update_page (page_id pg) ps))"
    and qry: "\<And>flt n srt. preserves I (upstream f (Query_data_source ds flt n srt))"
    and con: "\<And>w c. I w \<Longrightarrow> I (w\<lparr>console := c\<rparr>)"
    and w: "I w"
  shows "I (main_loop f batch ds w)"
  using upd w
proof (induction batch arbitrary: w)
  case Nil
  then show ?case by simp
next
  case (Cons pg rest)
  have "I (process_row f pg ds w)"
    by (rule process_row_preserves [OF Cons.prems(1) qry con Cons.prems(2)]) simp_all
  then show ?case
    using Cons.IH [of "process_row f pg ds w"] Cons.prems(1) by simp
qed

text \<open>The calls made are never forgotten.\<close>

lemma upstream_keeps_calls: "preserves (\<lambda>w. prefix xs (attempted w)) (upstream f rq)"
  by (rule preservesI) (simp add: upstream_attempted)

lemma process_row_marks:
  "Update_page (page_id pg) in_progress_patch \<in> set (attempted (process_row f pg ds w))"
proof -
  let ?U = "Update_page (page_id pg) in_progress_patch"
  let ?I = "\<lambda>w'. prefix (attempted w @ [?U]) (attempted w')"
  have first: "?I (snd (upstream f ?U w))"
    by (simp add: upstream_attempted)
  have rest: "preserves ?I (dedupe_and_dispatch f pg ds)"
    by (rule dedupe_and_dispatch_preserves) (rule upstream_keeps_calls)+
  have pe: "?I (snd (processEvent f pg ds w))"
    using first rest
    by (auto simp: processEvent_def updatePage_def worker_notionFetch_def await_def preserves_def
        split: prod.splits sum.splits)
  have "?I (process_row f pg ds w)"
  proof (cases "processEvent f pg ds w")
    case (Pair r w1)
    with pe have w1: "?I w1" by simp
    show ?thesis
    proof (cases r)
      case (Inr u)
      then show ?thesis using Pair w1 by (simp add: process_row_def)
    next
      case (Inl err)
      then show ?thesis
        using Pair w1
        by (simp add: process_row_def updatePage_def worker_notionFetch_def Let_def upstream_attempted)
    qed
  qed
  then show ?thesis
    by (auto simp: prefix_def)
qed

lemma main_loop_keeps_calls:
  "prefix xs (attempted w) \<Longrightarrow> prefix xs (attempted (main_loop f batch ds w))"
  by (rule main_loop_preserves [where I = "\<lambda>w. prefix xs (attempted w)"])
     (simp_all add: upstream_keeps_calls)

lemma main_loop_attempts_all:
  "\<forall>pg\<in>set batch. Update_page (page_id pg) in_progress_patch \<in> set (attempted (main_loop f batch ds w))"
proof (induction batch arbitrary: w)
  case Nil
  show ?case by simp
next
  case (Cons pg rest)
  have "prefix (attempted (process_row f pg ds w)) (attempted (main_loop f rest ds (process_row f pg ds w)))"
    by (rule main_loop_keeps_calls) simp
  then have "set (attempted (process_row f pg ds w)) \<subseteq> set (attempted (main_loop f rest ds (process_row f pg ds w)))"
    by (rule set_mono_prefix)
  with process_row_marks [of pg f ds w] Cons.IH [of "process_row f pg ds w"]
  show ?case by auto
qed

section \<open>A row that fails\<close>

lemma main_loop_append:
  "main_loop f (xs @ ys) ds w = main_loop f ys ds (main_loop f xs ds w)"
  by (induction xs arbitrary: w) simp_all

lemma map_of_set_prop:
  "map_of (set_prop k v ps) k' = (if k' = k then Some v else map_of ps k')"
  by (induction ps) auto

lemma map_of_patch_props_other:
  "k \<notin> fst ` set new \<Longrightarrow> map_of (patch_props new old) k = map_of old k"
  unfolding patch_props_def
  by (induction new arbitrary: old) (auto simp: map_of_set_prop)

lemma map_of_error_patch:
  "map_of (patch_props (error_patch err) old) ''Status'' = Some (Select (lit ''Error''))"
  "map_of (patch_props (error_patch err) old) ''Needs human review'' = Some (Checkbox True)"
  "map_of (patch_props (error_patch err) old) ''Scipio log''
     = Some (Rich_text [lit ''Worker: error: '' @ take 500 err])"
  using slice_take [of 500 err]
  by (simp_all add: patch_props_def error_patch_def map_of_set_prop)

lemma find_patched:
  assumes "\<And>p. page_id (g p) = page_id p"
  shows "find (\<lambda>p. page_id p = pid) (map (\<lambda>p. if page_id p = pid then g p else p) rs)
       = map_option g (find (\<lambda>p. page_id p = pid) rs)"
  using assms by (induction rs) auto

lemma find_untouched:
  assumes "\<And>p. page_id (g p) = page_id p" and "pid \<noteq> pid'"
  shows "find (\<lambda>p. page_id p = pid) (map (\<lambda>p. if page_id p = pid' then g p else p) rs)
       = find (\<lambda>p. page_id p = pid) rs"
  using assms by (induction rs) auto

lemma find_id: "pid \<in> page_id ` set rs \<Longrightarrow> \<exists>p. find (\<lambda>p. page_id p = pid) rs = Some p"
  by (induction rs) auto

lemma serve_update_rows:
  "rows (snd (serve (Update_page pid ps) w)) =
     map (\<lambda>p. if page_id p = pid then p\<lparr>properties := patch_props ps (properties p)\<rparr> else p) (rows w)"
  by simp

lemma serve_query_rows: "rows (snd (serve (Query_data_source ds flt n srt) w)) = rows w"
  by (simp add: Let_def)

lemma update_keeps_ids:
  "preserves (\<lambda>w. map page_id (rows w) = ids) (upstream f (Update_page pid ps))"
  by (rule preserves_upstream_rows) (simp add: comp_def if_distrib cong: if_cong)

lemma query_keeps_rows:
  "preserves (\<lambda>w. R (rows w)) (upstream f (Query_data_source ds flt n srt))"
  by (rule preserves_upstream_rows) (simp add: Let_def)

lemma update_keeps_other_rows:
  assumes "pid \<noteq> pid'"
  shows "preserves (\<lambda>w. prop_of w pid k = c) (upstream f (Update_page pid' ps))"
proof -
  have "preserves (\<lambda>w. (case find (\<lambda>p. page_id p = pid) (rows w) of None \<Rightarrow> None
                          | Some p \<Rightarrow> map_of (properties p) k) = c) (upstream f (Update_page pid' ps))"
    by (rule preserves_upstream_rows) (simp add: find_untouched [OF _ assms])
  then show ?thesis by (simp add: prop_of_def)
qed

lemma processEvent_keeps_ids:
  "map page_id (rows (snd (processEvent f pg ds w))) = map page_id (rows w)"
  using processEvent_preserves [of "\<lambda>w'. map page_id (rows w') = map page_id (rows w)" f pg ds,
      OF update_keeps_ids query_keeps_rows]
  by (simp add: preserves_def)

lemma processEvent_keeps_console:
  "console (snd (processEvent f pg ds w)) = console w"
proof -
  have "preserves (\<lambda>w'. console w' = console w) (upstream f rq)" for rq
    by (rule preservesI) (simp add: upstream_console)
  then have "preserves (\<lambda>w'. console w' = console w) (processEvent f pg ds)"
    by (intro processEvent_preserves)
  then show ?thesis by (simp add: preserves_def)
qed

lemma main_loop_keeps_other_rows:
  assumes "pid \<notin> page_id ` set batch"
  shows "prop_of (main_loop f batch ds w) pid k = prop_of w pid k"
proof -
  have "prop_of (main_loop f batch ds w) pid k = prop_of w pid k"
  proof (rule main_loop_preserves [where I = "\<lambda>w'. prop_of w' pid k = prop_of w pid k"])
    fix pg ps assume "pg \<in> set batch"
    with assms have "pid \<noteq> page_id pg" by auto
    then show "preserves (\<lambda>w'. prop_of w' pid k = prop_of w pid k) (upstream f (Update_page (page_id pg) ps))"
      by (rule update_keeps_other_rows)
  next
    fix flt n srt
    have "preserves (\<lambda>w'. (case find (\<lambda>p. page_id p = pid) (rows w') of None \<Rightarrow> None
                          | Some p \<Rightarrow> map_of (properties p) k) = prop_of w pid k)
            (upstream f (Query_data_source ds flt n srt))"
      by (rule query_keeps_rows)
    then show "preserves (\<lambda>w'. prop_of w' pid k = prop_of w pid k) (upstream f (Query_data_source ds flt n srt))"
      by (simp add: prop_of_def)
  qed (simp_all add: prop_of_def)
  then show ?thesis .
qed

lemma process_row_failed:
  assumes "processEvent f pg ds w = (Inl err, w1)"
  shows "process_row f pg ds w =
     snd (upstream f (Update_page (page_id pg) (error_patch err))
            (w1\<lparr>console := console w1 @ [Console_error (lit ''Error processing '' @ page_id pg @ lit '':'') err]\<rparr>))"
  using assms by (simp add: process_row_def updatePage_def worker_notionFetch_def Let_def)

lemmas worker_eval =
  main_loop.simps process_row_def processEvent_def dedupe_and_dispatch_def row_type_def await_def updatePage_def
  findByEventId_def worker_notionFetch_def upstream_def Let_def getRichText_def trim_def is_ws_def
  in_progress_patch_def review_patch_def error_patch_def deduped_patch_def patch_props_def
  statuses_def prop_of_def empty_world_def sample_row_def slice_def lit_def

text \<open>
  Claim C6, as amended. When the processing of a row throws and the patch that follows is
  answered, the row ends the batch with status \<open>Error\<close>, the review flag set and, as its
  log, \<open>Worker: error:\<close> with the first 500 characters at most of the failure's rendering;
  the loop goes on with the rows after it, and every row of the batch has its first patch
  attempted, whatever fails.
\<close>

theorem failing_row_is_isolated:
  assumes "fst (processEvent f pg ds w) = Inl err"
    and "f (tick (snd (processEvent f pg ds w))) = None"
    and "page_id pg \<in> page_id ` set (rows w)"
    and "page_id pg \<notin> page_id ` set rest"
  shows "prop_of (main_loop f (pg # rest) ds w) (page_id pg) ''Status'' = Some (Select (lit ''Error''))
       \<and> prop_of (main_loop f (pg # rest) ds w) (page_id pg) ''Needs human review'' = Some (Checkbox True)
       \<and> prop_of (main_loop f (pg # rest) ds w) (page_id pg) ''Scipio log''
           = Some (Rich_text [lit ''Worker: error: '' @ take 500 err])
       \<and> length (take 500 err) \<le> 500
       \<and> main_loop f (pg # rest) ds w = main_loop f rest ds (process_row f pg ds w)
       \<and> (\<forall>q\<in>set (pg # rest).
            Update_page (page_id q) in_progress_patch \<in> set (attempted (main_loop f (pg # rest) ds w)))"
proof -
  obtain w1 where pe: "processEvent f pg ds w = (Inl err, w1)"
    using assms(1) by (cases "processEvent f pg ds w") auto
  let ?w2 = "w1\<lparr>console := console w1 @ [Console_error (lit ''Error processing '' @ page_id pg @ lit '':'') err]\<rparr>"
  have ans: "f (tick ?w2) = None"
    using assms(2) pe by simp
  have ids: "map page_id (rows w1) = map page_id (rows w)"
    using processEvent_keeps_ids [of f pg ds w] pe by simp
  then have "page_id pg \<in> page_id ` set (rows w1)"
    using assms(3) by (metis list.set_map)
  then obtain p where p: "find (\<lambda>p. page_id p = page_id pg) (rows w1) = Some p"
    using find_id by blast
  have row: "rows (process_row f pg ds w) =
      map (\<lambda>p. if page_id p = page_id pg
                 then p\<lparr>properties := patch_props (error_patch err) (properties p)\<rparr> else p) (rows w1)"
    by (simp add: process_row_failed [OF pe] upstream_answered [where f = f and w = "?w2", OF ans])
  have found: "find (\<lambda>p. page_id p = page_id pg) (rows (process_row f pg ds w))
      = Some (p\<lparr>properties := patch_props (error_patch err) (properties p)\<rparr>)"
    unfolding row
    by (subst find_patched [where g = "\<lambda>p. p\<lparr>properties := patch_props (error_patch err) (properties p)\<rparr>"])
       (simp_all add: p)
  have after: "prop_of (process_row f pg ds w) (page_id pg) k
      = map_of (patch_props (error_patch err) (properties p)) k" for k
    by (simp add: prop_of_def found)
  have final: "prop_of (main_loop f rest ds (process_row f pg ds w)) (page_id pg) k
      = map_of (patch_props (error_patch err) (properties p)) k" for k
    using main_loop_keeps_other_rows [OF assms(4), of f ds "process_row f pg ds w" k] after by simp
  show ?thesis
    using main_loop_attempts_all [of "pg # rest" f ds w]
    by (simp add: final map_of_error_patch)
qed

theorem failing_row_is_isolated_witness:
  "statuses (main_loop (fails_at 6 6) five_rows (lit ''ds_1'') five_row_world)
     = [Some (Select (lit ''Needs human review'')), Some (Select (lit ''Needs human review'')),
        Some (Select (lit ''Error'')),
        Some (Select (lit ''Needs human review'')), Some (Select (lit ''Needs human review''))]
   \<and> prop_of (main_loop (fails_at 6 6) five_rows (lit ''ds_1'') five_row_world) (lit ''page-3'') ''Scipio log''
     = Some (Rich_text [lit ''Worker: error: Error: Notion API error 502: ''])"
proof -
  let ?f = "fails_at 6 6"
  let ?w = "main_loop ?f [sample_row ''page-1'' 1001 ''evt_a'', sample_row ''page-2'' 1002 ''evt_b'']
              (lit ''ds_1'') five_row_world"
  have split: "five_rows = [sample_row ''page-1'' 1001 ''evt_a'', sample_row ''page-2'' 1002 ''evt_b'']
      @ sample_row ''page-3'' 1003 ''evt_c'' # [sample_row ''page-4'' 1004 ''evt_d'', sample_row ''page-5'' 1005 ''evt_e'']"
    by (simp add: five_rows_def)
  have w: "tick ?w = 6" "map page_id (rows ?w) = map page_id five_rows"
    by (simp_all add: worker_eval five_row_world_def five_rows_def fails_at_def)
  have f6: "?f 6 = Some (lit ''Error: Notion API error 502: '')" "?f 7 = None"
    by (simp_all add: fails_at_def)
  have u: "upstream ?f rq ?w =
      (Inl (lit ''Error: Notion API error 502: ''), ?w\<lparr>tick := Suc (tick ?w), attempted := attempted ?w @ [rq]\<rparr>)"
    for rq
    by (rule upstream_failed) (simp add: w f6 del: main_loop.simps)
  have thrown: "fst (processEvent ?f (sample_row ''page-3'' 1003 ''evt_c'') (lit ''ds_1'') ?w)
      = Inl (lit ''Error: Notion API error 502: '')"
    "tick (snd (processEvent ?f (sample_row ''page-3'' 1003 ''evt_c'') (lit ''ds_1'') ?w)) = 7"
    by (simp_all add: processEvent_def await_def updatePage_def worker_notionFetch_def u w
        del: main_loop.simps)
  have "?f (tick (snd (processEvent ?f (sample_row ''page-3'' 1003 ''evt_c'') (lit ''ds_1'') ?w))) = None"
    by (simp add: thrown f6 del: main_loop.simps)
  moreover have "page_id (sample_row ''page-3'' 1003 ''evt_c'') \<in> page_id ` set (rows ?w)"
  proof -
    have "page_id ` set (rows ?w) = set (map page_id (rows ?w))"
      by (simp del: main_loop.simps)
    then show ?thesis
      unfolding w(2) by (simp add: five_rows_def del: main_loop.simps)
  qed
  moreover have "page_id (sample_row ''page-3'' 1003 ''evt_c'')
      \<notin> page_id ` set [sample_row ''page-4'' 1004 ''evt_d'', sample_row ''page-5'' 1005 ''evt_e'']"
    by (simp add: sample_row_def lit_inj)
  ultimately have T: "prop_of (main_loop ?f five_rows (lit ''ds_1'') five_row_world) (lit ''page-3'') ''Scipio log''
      = Some (Rich_text [lit ''Worker: error: '' @ take 500 (lit ''Error: Notion API error 502: '')])"
    using failing_row_is_isolated [OF thrown(1), of "[sample_row ''page-4'' 1004 ''evt_d'', sample_row ''page-5'' 1005 ''evt_e'']"]
    by (simp add: split main_loop_append sample_row_def)
  have S: "statuses (main_loop ?f five_rows (lit ''ds_1'') five_row_world)
     = [Some (Select (lit ''Needs human review'')), Some (Select (lit ''Needs human review'')),
        Some (Select (lit ''Error'')),
        Some (Select (lit ''Needs human review'')), Some (Select (lit ''Needs human review''))]"
    by (simp add: worker_eval five_row_world_def five_rows_def fails_at_def)
  show ?thesis
    using T S by (simp add: lit_def)
qed

text \<open>
  Claim C6 as stated fails in one respect: the message is not appended to the log. The
  patch sets the log property, and what the log held before is gone. Here the third of five
  rows fails at its first patch.
\<close>

theorem failing_row_log_is_replaced:
  "prop_of five_row_world (lit ''page-3'') ''Scipio log'' = Some (Rich_text [lit ''Aqueduct: queued''])
   \<and> prop_of (main_loop (fails_at 6 6) five_rows (lit ''ds_1'') five_row_world) (lit ''page-3'') ''Scipio log''
     = Some (Rich_text [lit ''Worker: error: Error: Notion API error 502: ''])"
  by (simp add: worker_eval five_row_world_def five_rows_def fails_at_def)

text \<open>
  Claim C10. When the processing of a row throws and the patch to \<open>Error\<close> throws as
  well, the rows stay as the failed processing left them, the console holds the first
  failure only, and the loop goes on: every later row of the batch has its first patch
  attempted.
\<close>

theorem failed_error_patch_is_swallowed:
  assumes "fst (processEvent f pg ds w) = Inl err"
    and "f (tick (snd (processEvent f pg ds w))) = Some err'"
  shows "rows (process_row f pg ds w) = rows (snd (processEvent f pg ds w))
       \<and> console (process_row f pg ds w)
           = console w @ [Console_error (lit ''Error processing '' @ page_id pg @ lit '':'') err]
       \<and> main_loop f (pg # rest) ds w = main_loop f rest ds (process_row f pg ds w)
       \<and> (\<forall>q\<in>set rest.
            Update_page (page_id q) in_progress_patch \<in> set (attempted (main_loop f (pg # rest) ds w)))"
proof -
  obtain w1 where pe: "processEvent f pg ds w = (Inl err, w1)"
    using assms(1) by (cases "processEvent f pg ds w") auto
  let ?w2 = "w1\<lparr>console := console w1 @ [Console_error (lit ''Error processing '' @ page_id pg @ lit '':'') err]\<rparr>"
  have thrown: "f (tick ?w2) = Some err'"
    using assms(2) pe by simp
  have con: "console w1 = console w"
    using processEvent_keeps_console [of f pg ds w] pe by simp
  have "process_row f pg ds w = ?w2\<lparr>tick := Suc (tick ?w2),
          attempted := attempted ?w2 @ [Update_page (page_id pg) (error_patch err)]\<rparr>"
    by (simp add: process_row_failed [OF pe] upstream_failed [where f = f and w = "?w2", OF thrown])
  then show ?thesis
    using main_loop_attempts_all [of "pg # rest" f ds w] pe con by simp
qed

theorem failed_error_patch_is_swallowed_witness:
  "statuses (main_loop (fails_at 1 2)
       [sample_row ''page-1'' 1001 ''evt_a'', sample_row ''page-2'' 1002 ''evt_b''] (lit ''ds_1'') five_row_world)
     = [Some (Select (lit ''In Progress'')), Some (Select (lit ''Needs human review'')),
        Some (Select (lit ''New'')), Some (Select (lit ''New'')), Some (Select (lit ''New''))]
   \<and> console (main_loop (fails_at 1 2)
       [sample_row ''page-1'' 1001 ''evt_a'', sample_row ''page-2'' 1002 ''evt_b''] (lit ''ds_1'') five_row_world)
     = [Console_error (lit ''Error processing page-1:'') (lit ''Error: Notion API error 502: ''),
        Console_log (lit ''Processed page-2'')]"
proof -
  let ?f = "fails_at 1 2"
  let ?r1 = "sample_row ''page-1'' 1001 ''evt_a''"
  have thrown: "fst (processEvent ?f ?r1 (lit ''ds_1'') five_row_world) = Inl (lit ''Error: Notion API error 502: '')"
    "tick (snd (processEvent ?f ?r1 (lit ''ds_1'') five_row_world)) = 2"
    by (simp_all add: worker_eval five_row_world_def five_rows_def fails_at_def)
  have f2: "?f 2 = Some (lit ''Error: Notion API error 502: '')"
    by (simp add: fails_at_def)
  have again: "?f (tick (snd (processEvent ?f ?r1 (lit ''ds_1'') five_row_world)))
      = Some (lit ''Error: Notion API error 502: '')"
    unfolding thrown(2) by (rule f2)
  have E: "statuses (main_loop ?f [?r1, sample_row ''page-2'' 1002 ''evt_b''] (lit ''ds_1'') five_row_world)
     = [Some (Select (lit ''In Progress'')), Some (Select (lit ''Needs human review'')),
        Some (Select (lit ''New'')), Some (Select (lit ''New'')), Some (Select (lit ''New''))]"
    "console (main_loop ?f [?r1, sample_row ''page-2'' 1002 ''evt_b''] (lit ''ds_1'') five_row_world)
     = [Console_error (lit ''Error processing page-1:'') (lit ''Error: Notion API error 502: ''),
        Console_log (lit ''Processed page-2'')]"
    by (simp_all add: worker_eval five_row_world_def five_rows_def fails_at_def)
  show ?thesis
    using failed_error_patch_is_swallowed [OF thrown(1) again, of "[sample_row ''page-2'' 1002 ''evt_b'']"] E
    by simp
qed

section \<open>The dedup pass\<close>

lemma serve_update_patch_row:
  "rows (snd (serve (Update_page pid ps) w)) = map (patch_row pid ps) (rows w)"
  by (simp add: patch_row_def)

lemma patch_row_id [simp]: "page_id (patch_row pid ps p) = page_id p"
  by (simp add: patch_row_def)

lemma patch_row_created [simp]: "created_time (patch_row pid ps p) = created_time p"
  by (simp add: patch_row_def)

lemma core_patch_row:
  "''Event ID'' \<notin> fst ` set ps \<Longrightarrow> core (patch_row pid ps p) = core p"
  by (simp add: core_def patch_row_def map_of_patch_props_other)

lemma matches_core:
  "core p = core q \<Longrightarrow> matches (Rich_text_equals ''Event ID'' e) p = matches (Rich_text_equals ''Event ID'' e) q"
  by (simp add: core_def)

lemma dups_patched:
  assumes "''Event ID'' \<notin> fst ` set ps"
  shows "filter (matches (Rich_text_equals ''Event ID'' e)) (map (patch_row pid ps) rs)
       = map (patch_row pid ps) (filter (matches (Rich_text_equals ''Event ID'' e)) rs)"
proof -
  have "matches (Rich_text_equals ''Event ID'' e) (patch_row pid ps p)
      = matches (Rich_text_equals ''Event ID'' e) p" for p
    by (rule matches_core) (rule core_patch_row [OF assms])
  then show ?thesis
    by (induction rs) (simp_all del: matches.simps)
qed

lemma hd_sort_key_earliest:
  assumes "k \<in> set xs" and "distinct (map f xs)" and "\<forall>x\<in>set xs. f k \<le> f x"
  shows "hd (sort_key f xs) = k"
proof -
  let ?s = "sort_key f xs"
  have ne: "?s \<noteq> []" using assms(1) by (metis empty_iff list.set(1) set_sort)
  then have h: "hd ?s \<in> set xs" by (metis list.set_sel(1) set_sort)
  have "sorted (map f ?s)" by (rule sorted_sort_key)
  moreover have "k \<in> set ?s" using assms(1) by simp
  ultimately have "f (hd ?s) \<le> f k"
    using ne by (cases ?s) auto
  moreover have "f k \<le> f (hd ?s)" using assms(3) h by blast
  ultimately have "f (hd ?s) = f k" by simp
  moreover have "inj_on f (set xs)" using assms(2) by (simp add: distinct_map)
  ultimately show ?thesis using h assms(1) by (auto dest: inj_onD)
qed

lemma updatePage_answered:
  "f (tick w) = None \<Longrightarrow>
   updatePage f pid ps w =
     (Inr Page_done,
      w\<lparr>tick := Suc (tick w), attempted := attempted w @ [Update_page pid ps],
        rows := map (patch_row pid ps) (rows w)\<rparr>)"
  by (simp add: updatePage_def worker_notionFetch_def upstream_answered patch_row_def [abs_def])

lemma findByEventId_answered:
  "f (tick w) = None \<Longrightarrow>
   findByEventId f ds e w =
     (Inr (Results (take 10 (dups w e))),
      w\<lparr>tick := Suc (tick w),
        attempted := attempted w @ [Query_data_source ds (Rich_text_equals ''Event ID'' e) 10 False]\<rparr>)"
  by (simp add: findByEventId_def worker_notionFetch_def upstream_answered dups_def Let_def
      del: matches.simps)

lemma map_of_review_patch:
  "map_of (patch_props (review_patch typ) old) ''Status'' = Some (Select (lit ''Needs human review''))"
  "map_of (patch_props (review_patch typ) old) ''Needs human review'' = Some (Checkbox True)"
  by (simp_all add: patch_props_def review_patch_def map_of_set_prop)

lemma map_of_deduped_patch:
  "map_of (patch_props (deduped_patch keeper e) old) ''Status'' = Some (Select (lit ''Deduped''))"
  "map_of (patch_props (deduped_patch keeper e) old) ''Needs human review'' = Some (Checkbox False)"
  "map_of (patch_props (deduped_patch keeper e) old) ''Scipio log''
     = Some (Rich_text [lit ''Worker: deduped (keeper='' @ keeper @ lit '') for eventId='' @ e])"
  by (simp_all add: patch_props_def deduped_patch_def map_of_set_prop)

lemma find_patch_row:
  "find (\<lambda>p. page_id p = pid) (map (patch_row pid ps) rs)
     = map_option (\<lambda>p. p\<lparr>properties := patch_props ps (properties p)\<rparr>) (find (\<lambda>p. page_id p = pid) rs)"
  unfolding patch_row_def [abs_def] by (rule find_patched) simp

lemma prop_of_patched:
  assumes "pid \<in> page_id ` set rs"
  shows "\<exists>p :: page. (case find (\<lambda>p. page_id p = pid) (map (patch_row pid ps) rs) of None \<Rightarrow> None
              | Some q \<Rightarrow> map_of (properties q) name)
            = map_of (patch_props ps (properties p)) name"
proof -
  obtain p where p: "find (\<lambda>p. page_id p = pid) rs = Some p"
    using find_id [OF assms] by blast
  have "(case find (\<lambda>p. page_id p = pid) (map (patch_row pid ps) rs) of None \<Rightarrow> None
          | Some q \<Rightarrow> map_of (properties q) name)
        = map_of (patch_props ps (properties p)) name"
    by (simp add: find_patch_row p)
  then show ?thesis ..
qed


lemma processEvent_dedup:
  fixes w :: world
  assumes nf: "\<forall>n. f n = None"
    and ev: "getRichText pg ''Event ID'' = e" "e \<noteq> []"
    and cs: "map core (dups w e) = cs"
    and size: "length cs \<le> 10"
    and solo: "length cs \<le> 1 \<Longrightarrow> kid = page_id pg"
    and times: "distinct (map (fst \<circ> snd) cs)"
    and c: "c \<in> set cs" "fst c = kid" "\<forall>d\<in>set cs. fst (snd c) \<le> fst (snd d)"
    and kid: "kid \<noteq> []"
  shows "fst (processEvent f pg ds w) = Inr ()"
    and "rows (snd (processEvent f pg ds w)) =
           map (patch_row (page_id pg) (final_patch kid e pg))
             (map (patch_row (page_id pg) in_progress_patch) (rows w))"
proof -
  let ?M = "matches (Rich_text_equals ''Event ID'' e)"
  let ?D = "filter ?M (rows w)"
  let ?P1 = "patch_row (page_id pg) in_progress_patch"
  have D: "map core ?D = cs" using cs by (simp add: dups_def)
  then have len: "length ?D = length cs" by (metis length_map)
  have img: "core ` set ?D = set cs"
    unfolding D [symmetric] by simp
  then have "c \<in> core ` set ?D" using c(1) by simp
  then obtain k where k: "k \<in> set ?D" "core k = c"
    by (elim imageE) simp
  have ct: "created_time p = fst (snd (core p))" for p :: page
    by (simp add: core_def)
  have "map created_time ?D = map (fst \<circ> snd) (map core ?D)"
    by (simp add: ct)
  then have dist: "distinct (map created_time ?D)"
    using times D by simp
  have least: "\<forall>p\<in>set ?D. created_time k \<le> created_time p"
  proof
    fix p assume "p \<in> set ?D"
    then have "core p \<in> core ` set ?D" by (rule imageI)
    then have "core p \<in> set cs" unfolding img .
    then show "created_time k \<le> created_time p"
      using c(3) k(2) by (simp add: ct)
  qed
  have "hd (sort_key created_time (map ?P1 ?D)) = ?P1 k"
  proof (rule hd_sort_key_earliest)
    show "?P1 k \<in> set (map ?P1 ?D)" using k(1) by simp
    show "distinct (map created_time (map ?P1 ?D))" using dist by (simp add: comp_def)
    show "\<forall>x\<in>set (map ?P1 ?D). created_time (?P1 k) \<le> created_time x" using least by simp
  qed
  moreover have "page_id k = kid"
    using k(2) c(2) by (auto simp: core_def)
  ultimately have keeper: "page_id (hd (sort_key created_time (map ?P1 ?D))) = kid"
    by simp
  have found: "filter ?M (map ?P1 (rows w)) = map ?P1 ?D"
    by (rule dups_patched) (rule patch_keys)
  have small: "length ?D \<le> 10"
    using size len by simp
  let ?U1 = "Update_page (page_id pg) in_progress_patch"
  let ?Q = "Query_data_source ds (Rich_text_equals ''Event ID'' e) 10 False"
  let ?w1 = "w\<lparr>tick := Suc (tick w), attempted := attempted w @ [?U1], rows := map ?P1 (rows w)\<rparr>"
  let ?w2 = "?w1\<lparr>tick := Suc (tick ?w1), attempted := attempted ?w1 @ [?Q]\<rparr>"
  have s1: "updatePage f (page_id pg) in_progress_patch w = (Inr Page_done, ?w1)"
    using nf by (simp add: updatePage_answered)
  have d1: "dups ?w1 e = map ?P1 ?D"
    unfolding dups_def using found by simp
  have t1: "take 10 (map ?P1 ?D) = map ?P1 ?D"
    using small by simp
  have s2: "findByEventId f ds e ?w1 = (Inr (Results (map ?P1 ?D)), ?w2)"
    using nf by (simp only: findByEventId_answered d1 t1)
  have s3: "updatePage f (page_id pg) ps ?w2 =
      (Inr Page_done, ?w2\<lparr>tick := Suc (tick ?w2), attempted := attempted ?w2 @ [Update_page (page_id pg) ps],
         rows := map (patch_row (page_id pg) ps) (rows ?w2)\<rparr>)" for ps
    using nf by (simp only: updatePage_answered)
  have tail: "dedupe_and_dispatch f pg ds ?w1 =
      (Inr (), ?w2\<lparr>tick := Suc (tick ?w2),
         attempted := attempted ?w2 @ [Update_page (page_id pg) (final_patch kid e pg)],
         rows := map (patch_row (page_id pg) (final_patch kid e pg)) (rows ?w2)\<rparr>)"
  proof (cases "1 < length ?D")
    case long: True
    show ?thesis
    proof (cases "kid = page_id pg")
      case True
      show ?thesis
        unfolding dedupe_and_dispatch_def Let_def await_def ev(1) final_patch_def
        using ev(2) long keeper True nf by (simp add: s2 updatePage_answered del: matches.simps)
    next
      case False
      show ?thesis
        unfolding dedupe_and_dispatch_def Let_def await_def ev(1) final_patch_def
        using ev(2) long keeper False kid nf by (simp add: s2 updatePage_answered del: matches.simps)
    qed
  next
    case alone: False
    then have "kid = page_id pg" using solo len by simp
    then show ?thesis
      unfolding dedupe_and_dispatch_def Let_def await_def ev(1) final_patch_def
      using ev(2) alone nf by (simp add: s2 updatePage_answered del: matches.simps)
  qed
  have run: "processEvent f pg ds w =
     (Inr (), ?w2\<lparr>tick := Suc (tick ?w2),
         attempted := attempted ?w2 @ [Update_page (page_id pg) (final_patch kid e pg)],
         rows := map (patch_row (page_id pg) (final_patch kid e pg)) (rows ?w2)\<rparr>)"
    unfolding processEvent_def await_def s1 by (simp only: prod.case sum.case tail)
  show "fst (processEvent f pg ds w) = Inr ()"
    and "rows (snd (processEvent f pg ds w)) =
           map (patch_row (page_id pg) (final_patch kid e pg)) (map ?P1 (rows w))"
    by (simp_all add: run)
qed

lemma core_of_dups:
  "map core (filter (matches (Rich_text_equals ''Event ID'' e)) rs)
     = filter (\<lambda>c. case snd (snd c) of Some (Rich_text frs) \<Rightarrow> concat frs = e | _ \<Rightarrow> False) (map core rs)"
  by (induction rs) (simp_all add: core_def)

lemma dups_core_cong:
  fixes w w' :: world
  assumes "map core (rows w') = map core (rows w)"
  shows "map core (dups w' e) = map core (dups w e)"
  by (simp add: dups_def core_of_dups assms del: matches.simps)

lemma ids_core_cong:
  fixes w w' :: world
  assumes "map core (rows w') = map core (rows w)"
  shows "map page_id (rows w') = map page_id (rows w)"
proof -
  have a: "map fst (map core rs) = map page_id rs" for rs :: "page list"
    by (induction rs) (simp_all add: core_def)
  show ?thesis
    using arg_cong [OF assms, of "map fst"] by (simp only: a)
qed

lemma update_keeps_cores:
  "''Event ID'' \<notin> fst ` set ps \<Longrightarrow>
   preserves (\<lambda>w. map core (rows w) = cs) (upstream f (Update_page pid ps))"
  by (rule preserves_upstream_rows) (simp add: serve_update_patch_row core_patch_row comp_def del: serve.simps)

lemma process_row_keeps_cores:
  "map core (rows (process_row f pg ds w)) = map core (rows w)"
proof (rule process_row_preserves [where I = "\<lambda>w'. map core (rows w') = map core (rows w)"])
  fix ps :: "(string \<times> prop_value) list"
  assume "''Event ID'' \<notin> fst ` set ps"
  then show "preserves (\<lambda>w'. map core (rows w') = map core (rows w)) (upstream f (Update_page (page_id pg) ps))"
    by (rule update_keeps_cores)
next
  fix flt n srt
  show "preserves (\<lambda>w'. map core (rows w') = map core (rows w)) (upstream f (Query_data_source ds flt n srt))"
    by (rule query_keeps_rows [where R = "\<lambda>rs. map core rs = map core (rows w)"])
qed simp_all

lemma prop_of_console [simp]: "prop_of (w\<lparr>console := c\<rparr>) pid name = prop_of w pid name"
  by (simp add: prop_of_def)

lemma getRichText_match:
  assumes "matches (Rich_text_equals ''Event ID'' e) pg" and "e \<noteq> []" and "trim e = e"
  shows "getRichText pg ''Event ID'' = e"
  using assms by (auto simp: getRichText_def split: option.splits prop_value.splits)

lemma process_row_dedup:
  fixes w :: world
  assumes nf: "\<forall>n. f n = None"
    and ev: "getRichText pg ''Event ID'' = e" "e \<noteq> []"
    and cs: "map core (dups w e) = cs"
    and size: "length cs \<le> 10"
    and solo: "length cs \<le> 1 \<Longrightarrow> kid = page_id pg"
    and times: "distinct (map (fst \<circ> snd) cs)"
    and c: "c \<in> set cs" "fst c = kid" "\<forall>d\<in>set cs. fst (snd c) \<le> fst (snd d)"
    and kid: "kid \<noteq> []"
    and here: "page_id pg \<in> page_id ` set (rows w)"
  shows "settled (process_row f pg ds w) kid e pg"
proof -
  let ?P1 = "patch_row (page_id pg) in_progress_patch"
  note pe = processEvent_dedup [OF nf ev cs size solo times c kid, of ds]
  obtain w1 where w1: "processEvent f pg ds w = (Inr (), w1)"
    using pe(1) by (cases "processEvent f pg ds w") auto
  have rows1: "rows w1 = map (patch_row (page_id pg) (final_patch kid e pg)) (map ?P1 (rows w))"
    using pe(2) w1 by simp
  have "page_id pg \<in> page_id ` set (map ?P1 (rows w))"
    using here by (simp add: image_image)
  from prop_of_patched [OF this] have
    "\<exists>p :: page. prop_of w1 (page_id pg) name = map_of (patch_props (final_patch kid e pg) (properties p)) name"
    for name
    by (simp add: prop_of_def rows1)
  then have after: "\<exists>p :: page. prop_of (process_row f pg ds w) (page_id pg) name
      = map_of (patch_props (final_patch kid e pg) (properties p)) name" for name
    using w1 by (simp add: process_row_def)
  show ?thesis
  proof (cases "kid = page_id pg")
    case True
    then show ?thesis
      using after [of "''Status''"] after [of "''Needs human review''"]
      by (auto simp: settled_def final_patch_def map_of_review_patch)
  next
    case False
    then show ?thesis
      using after [of "''Status''"] after [of "''Needs human review''"] after [of "''Scipio log''"]
      by (auto simp: settled_def final_patch_def map_of_deduped_patch)
  qed
qed

lemma settled_cong:
  "(\<And>name. prop_of w' (page_id pg) name = prop_of w (page_id pg) name) \<Longrightarrow>
   settled w' kid e pg = settled w kid e pg"
  by (simp add: settled_def)

lemma main_loop_dedup:
  fixes w :: world
  assumes nf: "\<forall>n. f n = None"
    and e: "e \<noteq> []"
    and cs: "map core (dups w e) = cs"
    and size: "length cs \<le> 10"
    and solo: "length cs \<le> 1 \<Longrightarrow> \<forall>pg\<in>set batch. kid = page_id pg"
    and times: "distinct (map (fst \<circ> snd) cs)"
    and c: "c \<in> set cs" "fst c = kid" "\<forall>d\<in>set cs. fst (snd c) \<le> fst (snd d)"
    and kid: "kid \<noteq> []"
    and batch: "\<forall>pg\<in>set batch. getRichText pg ''Event ID'' = e \<and> page_id pg \<in> page_id ` set (rows w)"
    and dist: "distinct (map page_id batch)"
  shows "\<forall>pg\<in>set batch. settled (main_loop f batch ds w) kid e pg"
  using cs solo batch dist
proof (induction batch arbitrary: w)
  case Nil
  show ?case by simp
next
  case (Cons pg rest)
  let ?w1 = "process_row f pg ds w"
  have ev: "getRichText pg ''Event ID'' = e" and here: "page_id pg \<in> page_id ` set (rows w)"
    using Cons.prems(3) by simp_all
  have solo1: "length cs \<le> 1 \<Longrightarrow> kid = page_id pg"
    and solo2: "length cs \<le> 1 \<Longrightarrow> \<forall>q\<in>set rest. kid = page_id q"
    using Cons.prems(2) by auto
  have first: "settled ?w1 kid e pg"
    by (rule process_row_dedup [OF nf ev e Cons.prems(1) size solo1 times c kid here])
  have cores: "map core (rows ?w1) = map core (rows w)"
    by (rule process_row_keeps_cores)
  have cs1: "map core (dups ?w1 e) = cs"
    using dups_core_cong [OF cores] Cons.prems(1) by simp
  have ids: "page_id ` set (rows ?w1) = page_id ` set (rows w)"
    using ids_core_cong [OF cores] by (metis list.set_map)
  have batch1: "\<forall>q\<in>set rest. getRichText q ''Event ID'' = e \<and> page_id q \<in> page_id ` set (rows ?w1)"
    using Cons.prems(3) ids by simp
  have dist1: "distinct (map page_id rest)" and other: "page_id pg \<notin> page_id ` set rest"
    using Cons.prems(4) by simp_all
  have rest: "\<forall>q\<in>set rest. settled (main_loop f rest ds ?w1) kid e q"
    by (rule Cons.IH [OF cs1 solo2 batch1 dist1])
  have "settled (main_loop f rest ds ?w1) kid e pg = settled ?w1 kid e pg"
    by (rule settled_cong) (rule main_loop_keeps_other_rows [OF other])
  with first rest show ?case by simp
qed

text \<open>
  Claim C2, as amended. Let at most ten rows of the store share the non-empty event
  identifier \<open>e\<close> (stored without surrounding white space), with distinct creation times,
  let \<open>k\<close> be the earliest of them, and let every upstream call be answered. After the
  worker's loop over a batch of these rows, the keeper (also when it is the only row) has
  status \<open>Needs human review\<close> with the flag set, and every other row of the batch has status
  \<open>Deduped\<close>, the flag cleared and a log naming the keeper's identifier.
\<close>

theorem worker_pass_dedups:
  fixes w :: world
  assumes nf: "\<forall>n. f n = None"
    and e: "e \<noteq> []" "trim e = e"
    and size: "length (dups w e) \<le> 10"
    and times: "distinct (map created_time (dups w e))"
    and k: "earliest k (dups w e)" "page_id k \<noteq> []"
    and batch: "set batch \<subseteq> set (dups w e)" "distinct (map page_id batch)"
  shows "\<forall>pg\<in>set batch.
           (page_id pg = page_id k \<longrightarrow>
              prop_of (main_loop f batch ds w) (page_id pg) ''Status''
                = Some (Select (lit ''Needs human review''))
            \<and> prop_of (main_loop f batch ds w) (page_id pg) ''Needs human review'' = Some (Checkbox True))
         \<and> (page_id pg \<noteq> page_id k \<longrightarrow>
              prop_of (main_loop f batch ds w) (page_id pg) ''Status'' = Some (Select (lit ''Deduped''))
            \<and> prop_of (main_loop f batch ds w) (page_id pg) ''Needs human review'' = Some (Checkbox False)
            \<and> prop_of (main_loop f batch ds w) (page_id pg) ''Scipio log''
                = Some (Rich_text [lit ''Worker: deduped (keeper='' @ page_id k @ lit '') for eventId='' @ e]))"
proof -
  let ?cs = "map core (dups w e)"
  have ct: "map (fst \<circ> snd) ?cs = map created_time (dups w e)"
    by (simp add: core_def comp_def)
  have 1: "length ?cs \<le> 10"
    using size by simp
  have solo: "\<forall>pg\<in>set batch. page_id k = page_id pg" if "length ?cs \<le> 1"
  proof
    fix pg assume "pg \<in> set batch"
    then have "pg \<in> set (dups w e)" using batch(1) by blast
    moreover have "k \<in> set (dups w e)" using k(1) by (simp add: earliest_def)
    moreover have "length (dups w e) \<le> 1" using that by simp
    ultimately have "pg = k" by (cases "dups w e") auto
    then show "page_id k = page_id pg" by simp
  qed
  have 2: "distinct (map (fst \<circ> snd) ?cs)"
    unfolding ct by (rule times)
  have 3: "core k \<in> set ?cs" "fst (core k) = page_id k"
    using k(1) by (simp_all add: earliest_def core_def)
  have 4: "\<forall>d\<in>set ?cs. fst (snd (core k)) \<le> fst (snd d)"
    using k(1) by (auto simp: earliest_def core_def)
  have 5: "\<forall>pg\<in>set batch. getRichText pg ''Event ID'' = e \<and> page_id pg \<in> page_id ` set (rows w)"
  proof
    fix pg assume "pg \<in> set batch"
    then have "pg \<in> set (dups w e)" using batch(1) by blast
    then have "matches (Rich_text_equals ''Event ID'' e) pg" and "pg \<in> set (rows w)"
      by (simp_all add: dups_def del: matches.simps)
    then show "getRichText pg ''Event ID'' = e \<and> page_id pg \<in> page_id ` set (rows w)"
      using e by (simp add: getRichText_match del: matches.simps)
  qed
  have "\<forall>pg\<in>set batch. settled (main_loop f batch ds w) (page_id k) e pg"
    by (rule main_loop_dedup [OF nf e(1) refl 1 solo 2 3 4 k(2) 5 batch(2)])
  then show ?thesis
    by (auto simp: settled_def split: if_splits)
qed

lemma three_dups_facts:
  "dups three_dups (lit ''evt_1'')
     = [sample_row ''page-c'' 1003 ''evt_1'', sample_row ''page-b'' 1002 ''evt_1'',
        sample_row ''page-a'' 1001 ''evt_1'']"
  "trim (lit ''evt_1'') = lit ''evt_1''"
  "lit ''evt_1'' \<noteq> []"
  by (simp_all add: dups_def three_dups_def sample_row_def trim_def is_ws_def lit_def)

theorem worker_pass_dedups_witness:
  "prop_of (main_loop no_faults
       [sample_row ''page-a'' 1001 ''evt_1'', sample_row ''page-b'' 1002 ''evt_1'',
        sample_row ''page-c'' 1003 ''evt_1''] (lit ''ds_1'') three_dups) (lit ''page-a'') ''Status''
     = Some (Select (lit ''Needs human review''))
   \<and> prop_of (main_loop no_faults
       [sample_row ''page-a'' 1001 ''evt_1'', sample_row ''page-b'' 1002 ''evt_1'',
        sample_row ''page-c'' 1003 ''evt_1''] (lit ''ds_1'') three_dups) (lit ''page-b'') ''Status''
     = Some (Select (lit ''Deduped''))
   \<and> prop_of (main_loop no_faults
       [sample_row ''page-a'' 1001 ''evt_1'', sample_row ''page-b'' 1002 ''evt_1'',
        sample_row ''page-c'' 1003 ''evt_1''] (lit ''ds_1'') three_dups) (lit ''page-c'') ''Status''
     = Some (Select (lit ''Deduped''))
   \<and> prop_of (main_loop no_faults
       [sample_row ''page-a'' 1001 ''evt_1'', sample_row ''page-b'' 1002 ''evt_1'',
        sample_row ''page-c'' 1003 ''evt_1''] (lit ''ds_1'') three_dups) (lit ''page-c'') ''Scipio log''
     = Some (Rich_text [lit ''Worker: deduped (keeper=page-a) for eventId=evt_1''])"
proof -
  let ?a = "sample_row ''page-a'' 1001 ''evt_1''"
  let ?D = "dups three_dups (lit ''evt_1'')"
  have nf: "\<forall>n. no_faults n = None" by (simp add: no_faults_def)
  have size: "length ?D \<le> 10"
    by (simp add: three_dups_facts(1))
  have times: "distinct (map created_time ?D)"
    by (simp add: three_dups_facts(1) sample_row_def)
  have k1: "earliest ?a ?D"
    by (simp add: three_dups_facts(1) earliest_def sample_row_def)
  have k2: "page_id ?a \<noteq> []"
    by (simp add: sample_row_def lit_def)
  note k = k1 k2
  have batch: "set [?a, sample_row ''page-b'' 1002 ''evt_1'', sample_row ''page-c'' 1003 ''evt_1''] \<subseteq> set ?D"
    "distinct (map page_id [?a, sample_row ''page-b'' 1002 ''evt_1'', sample_row ''page-c'' 1003 ''evt_1''])"
    by (simp_all add: three_dups_facts(1) sample_row_def lit_inj)
  have ids: "page_id (sample_row ''page-b'' 1002 ''evt_1'') \<noteq> page_id ?a"
    "page_id (sample_row ''page-c'' 1003 ''evt_1'') \<noteq> page_id ?a"
    by (simp_all add: sample_row_def lit_inj)
  have names: "page_id ?a = lit ''page-a''" "page_id (sample_row ''page-b'' 1002 ''evt_1'') = lit ''page-b''"
    "page_id (sample_row ''page-c'' 1003 ''evt_1'') = lit ''page-c''"
    by (simp_all add: sample_row_def)
  have msg: "lit ''Worker: deduped (keeper='' @ lit ''page-a'' @ lit '') for eventId='' @ lit ''evt_1''
      = lit ''Worker: deduped (keeper=page-a) for eventId=evt_1''"
    by (simp add: lit_def)
  show ?thesis
    using worker_pass_dedups [OF nf three_dups_facts(3) three_dups_facts(2) size times k batch, of "lit ''ds_1''"]
      ids
    by (simp add: names msg del: main_loop.simps)
qed

text \<open>
  Claim C2 as stated fails for eleven rows of one event: the dedup query has page size 10
  and no sort, and when the store answers the newest rows first the oldest row is not
  among the ten; processed, the oldest row, which is the keeper, is set to \<open>Deduped\<close>.
\<close>

theorem oldest_of_eleven_is_deduped:
  "prop_of (snd (processEvent no_faults (sample_row ''page-1'' 1001 ''evt_1'') (lit ''ds_1'') eleven_dups))
       (lit ''page-1'') ''Status''
     = Some (Select (lit ''Deduped''))
   \<and> map created_time (dups eleven_dups (lit ''evt_1''))
     = [1011, 1010, 1009, 1008, 1007, 1006, 1005, 1004, 1003, 1002, 1001]"
  by (simp add: worker_eval eleven_dups_def dups_def no_faults_def)

end
